theory Spec2Isabelle
  imports Main "HOL-Library.Word"
begin

section \<open>The admission pipeline of go-phish-api\<close>

text \<open>
  A shallow embedding of the Go packages \<^verbatim>\<open>validate\<close> and \<^verbatim>\<open>server\<close>:
  the blacklist matcher, the IP checker, the reputation client (\<^verbatim>\<open>Whitelister\<close>),
  the validator that composes them, and the two configuration checks.

  The code talks to the outside world (HTTP, DNS, the clock) and calls the Go standard
  library (\<^verbatim>\<open>net\<close>, \<^verbatim>\<open>net/url\<close>, \<^verbatim>\<open>regexp\<close>, \<^verbatim>\<open>encoding/json\<close>,
  \<^verbatim>\<open>fmt\<close>). None of that is code of the repository, so it is a parameter of the
  model: the record \<open>env\<close> below. Everything the repository itself does is
  written out. Effects are explicit: every function that sleeps, sends a request, resolves
  a name or touches a cache takes the \<open>state\<close> and returns the new one, and appends
  what it did to the list \<open>events\<close>. Log output is not modelled, and neither are the
  mutexes: the model is one request at a time.
\<close>

subsection \<open>Machine integers and durations\<close>

text \<open>
  Go's \<^verbatim>\<open>int\<close> (on the 64-bit platform of the repository's Dockerfile) and
  \<^verbatim>\<open>time.Duration\<close> are signed 64-bit integers. They are modelled as \<open>int\<close>,
  with the wrap-around of \<^verbatim>\<open>+\<close> and \<^verbatim>\<open>*\<close> written out by \<open>wrap64\<close>.
  Durations and clock readings are in nanoseconds.
\<close>

definition wrap64 :: "int \<Rightarrow> int" where
  "wrap64 x = (x + 2 ^ 63) mod 2 ^ 64 - 2 ^ 63"

definition MaxInt64 :: int where
  "MaxInt64 = 2 ^ 63 - 1"

definition Millisecond :: int where
  "Millisecond = 1000000"

definition Minute :: int where
  "Minute = 60000000000"

definition Hour :: int where
  "Hour = 3600000000000"

subsection \<open>Errors\<close>

datatype error =
    ErrEmptyUrl          \<comment> \<open>"received empty url to be parsed"\<close>
  | ErrEmptyDomain       \<comment> \<open>"parsed empty domain from url"\<close>
  | ErrUrlParse          \<comment> \<open>the error of \<^verbatim>\<open>url.Parse\<close>\<close>
  | ErrLookupHost        \<comment> \<open>the error of \<^verbatim>\<open>net.LookupHost\<close>\<close>
  | ErrEmptyARecords     \<comment> \<open>"empty list of a-records received"\<close>
  | ErrValidatorCfg      \<comment> \<open>"validator cfg is invalid"\<close>
  | ErrHttpCfg           \<comment> \<open>"http config is invalid"\<close>
  | PanicMustCompile     \<comment> \<open>the panic of \<^verbatim>\<open>regexp.MustCompile\<close>\<close>
  | FatalParseCIDR       \<comment> \<open>\<^verbatim>\<open>log.Fatalf\<close> in \<^verbatim>\<open>NewIpChecker\<close>: the process exits\<close>

subsection \<open>Data of the standard library\<close>

text \<open>
  \<^verbatim>\<open>net.IP\<close> is a byte slice and \<^verbatim>\<open>nil\<close> when parsing fails: \<open>IP option\<close>.
  A \<^verbatim>\<open>*net.IPNet\<close> is an address and a mask. A compiled \<^verbatim>\<open>*regexp.Regexp\<close> is
  represented by its source pattern. Of a parsed \<^verbatim>\<open>*url.URL\<close> the code reads the
  field \<^verbatim>\<open>Scheme\<close> and the method \<^verbatim>\<open>Hostname()\<close>.
\<close>

type_synonym IP = "8 word list"

type_synonym IPNet = "IP \<times> IP"

type_synonym Regexp = string

record URL =
  Scheme :: string
  Hostname :: string

text \<open>
  What \<^verbatim>\<open>http.Get\<close> and \<^verbatim>\<open>io.ReadAll\<close> give for one request: \<open>None\<close> when
  \<^verbatim>\<open>http.Get\<close> returns an error, otherwise the status code and the body, where the
  body is \<open>None\<close> when reading it returns an error.
\<close>

record Response =
  StatusCode :: int
  Body :: "string option"

subsection \<open>The environment\<close>

text \<open>
  The standard library functions the code calls, and the outside world. The world may
  answer differently each time it is asked: \<open>http_Get\<close> and \<open>LookupHost\<close> take
  the number of external calls made before this one, and \<open>latency\<close> is the time the
  call with that number takes. \<open>Unmarshal_Domain\<close> and \<open>Unmarshal_Ip\<close> are
  \<^verbatim>\<open>json.Unmarshal\<close> into a \<^verbatim>\<open>DomainWhiteListResponse\<close> and an
  \<^verbatim>\<open>IpWhiteListResponse\<close>: \<open>None\<close> for an error, otherwise the field
  \<^verbatim>\<open>Result\<close> of the decoded struct, the only field the code reads.
\<close>

record env =
  ParseIP :: "string \<Rightarrow> IP option"
  IsLoopback :: "IP \<Rightarrow> bool"
  IsLinkLocalUnicast :: "IP \<Rightarrow> bool"
  IsLinkLocalMulticast :: "IP \<Rightarrow> bool"
  Contains :: "IPNet \<Rightarrow> IP \<Rightarrow> bool"
  ParseCIDR :: "string \<Rightarrow> IPNet option"
  url_Parse :: "string \<Rightarrow> URL option"
  Compile :: "string \<Rightarrow> Regexp option"
  MatchString :: "Regexp \<Rightarrow> string \<Rightarrow> bool"
  Sprintf :: "string \<Rightarrow> string \<Rightarrow> string"
  Unmarshal_Domain :: "string \<Rightarrow> bool option"
  Unmarshal_Ip :: "string \<Rightarrow> bool option"
  http_Get :: "nat \<Rightarrow> string \<Rightarrow> Response option"
  LookupHost :: "nat \<Rightarrow> string \<Rightarrow> error + string list"
  latency :: "nat \<Rightarrow> nat"

subsection \<open>The state and its events\<close>

datatype cache_name = Reputation | Decision

datatype event =
    Sleep int                        \<comment> \<open>\<^verbatim>\<open>time.Sleep(d)\<close>\<close>
  | HttpGet string                   \<comment> \<open>\<^verbatim>\<open>http.Get(url)\<close>\<close>
  | DnsLookup string                 \<comment> \<open>\<^verbatim>\<open>net.LookupHost(domain)\<close>\<close>
  | CacheGet cache_name string       \<comment> \<open>\<^verbatim>\<open>Get(key)\<close> on a cache\<close>
  | CacheSet cache_name string bool  \<comment> \<open>\<^verbatim>\<open>Set(key, val)\<close> on a cache\<close>

text \<open>
  Modelled from the spec: the time-expiring cache. The repository uses
  \<^verbatim>\<open>github.com/patrickmn/go-cache\<close>, which is not part of it. An entry is a value and
  the clock reading at which it expires; \<^verbatim>\<open>Get\<close> finds an entry until the clock
  passes its expiry; \<^verbatim>\<open>Set\<close> with the default expiration \<open>d > 0\<close> stores the
  value with expiry \<open>now + d\<close>. Entries are only ever written with a \<open>bool\<close>.
\<close>

type_synonym cache = "string \<rightharpoonup> (bool \<times> int)"

definition cache_Get :: "cache \<Rightarrow> string \<Rightarrow> int \<Rightarrow> bool option" where
  "cache_Get c k t =
     (case c k of
        None \<Rightarrow> None
      | Some (v, expiration) \<Rightarrow> if expiration < t then None else Some v)"

definition cache_Set :: "cache \<Rightarrow> string \<Rightarrow> bool \<Rightarrow> int \<Rightarrow> int \<Rightarrow> cache" where
  "cache_Set c k v d t = c(k \<mapsto> (v, t + d))"

text \<open>
  \<open>memcache\<close> is the cache of the \<^verbatim>\<open>Whitelister\<close> (\<^verbatim>\<open>cache.New(time.Hour, ...)\<close>),
  \<open>DomainCache\<close> the one of the \<^verbatim>\<open>Validator\<close>
  (\<^verbatim>\<open>cache.New(30*time.Minute, ...)\<close>); \<open>now\<close> is the clock, \<open>calls\<close> the number
  of external calls made so far.
\<close>

record state =
  now :: int
  calls :: nat
  events :: "event list"
  memcache :: cache
  DomainCache :: cache

definition emit :: "event \<Rightarrow> state \<Rightarrow> state" where
  "emit ev s = s\<lparr>events := events s @ [ev]\<rparr>"

definition time_Sleep :: "int \<Rightarrow> state \<Rightarrow> state" where
  "time_Sleep d s = emit (Sleep d) (s\<lparr>now := now s + d\<rparr>)"

definition external :: "env \<Rightarrow> event \<Rightarrow> state \<Rightarrow> state" where
  "external e ev s =
     emit ev (s\<lparr>now := now s + int (latency e (calls s)), calls := Suc (calls s)\<rparr>)"

definition do_http_Get :: "env \<Rightarrow> string \<Rightarrow> state \<Rightarrow> Response option \<times> state" where
  "do_http_Get e url s = (http_Get e (calls s) url, external e (HttpGet url) s)"

definition do_LookupHost :: "env \<Rightarrow> string \<Rightarrow> state \<Rightarrow> (error + string list) \<times> state" where
  "do_LookupHost e domain s = (LookupHost e (calls s) domain, external e (DnsLookup domain) s)"

definition memcache_Get :: "string \<Rightarrow> state \<Rightarrow> bool option \<times> state" where
  "memcache_Get k s = (cache_Get (memcache s) k (now s), emit (CacheGet Reputation k) s)"

definition memcache_Set :: "string \<Rightarrow> bool \<Rightarrow> state \<Rightarrow> state" where
  "memcache_Set k v s =
     emit (CacheSet Reputation k v) (s\<lparr>memcache := cache_Set (memcache s) k v Hour (now s)\<rparr>)"

subsection \<open>The blacklist matcher\<close>

record UrlBlacklister =
  Regexps :: "Regexp list"

text \<open>
  \<^verbatim>\<open>NewBlacklister\<close> compiles every pattern with \<^verbatim>\<open>regexp.MustCompile\<close>, which
  panics on a pattern that does not compile.
\<close>

fun NewBlacklister_loop :: "env \<Rightarrow> string list \<Rightarrow> Regexp list \<Rightarrow> error + Regexp list" where
  "NewBlacklister_loop e [] compiled = Inr compiled"
| "NewBlacklister_loop e (exp # rawRegexps) compiled =
     (case Compile e exp of
        None \<Rightarrow> Inl PanicMustCompile
      | Some re \<Rightarrow> NewBlacklister_loop e rawRegexps (compiled @ [re]))"

definition NewBlacklister :: "env \<Rightarrow> string list \<Rightarrow> error + UrlBlacklister" where
  "NewBlacklister e rawRegexps =
     (case NewBlacklister_loop e rawRegexps [] of
        Inl err \<Rightarrow> Inl err
      | Inr compiled \<Rightarrow> Inr \<lparr>Regexps = compiled\<rparr>)"

fun UrlIsBlack_loop :: "env \<Rightarrow> Regexp list \<Rightarrow> string \<Rightarrow> bool" where
  "UrlIsBlack_loop e [] url = False"
| "UrlIsBlack_loop e (re # res) url =
     (if MatchString e re url then True else UrlIsBlack_loop e res url)"

definition UrlIsBlack :: "env \<Rightarrow> UrlBlacklister \<Rightarrow> string \<Rightarrow> bool" where
  "UrlIsBlack e checker url = UrlIsBlack_loop e (Regexps checker) url"

subsection \<open>The IP checker\<close>

record IpChecker =
  LocalIPNets :: "IPNet list"

fun NewIpChecker_loop :: "env \<Rightarrow> string list \<Rightarrow> IPNet list \<Rightarrow> error + IPNet list" where
  "NewIpChecker_loop e [] nets = Inr nets"
| "NewIpChecker_loop e (localNet # localNets) nets =
     (case ParseCIDR e localNet of
        None \<Rightarrow> Inl FatalParseCIDR
      | Some n \<Rightarrow> NewIpChecker_loop e localNets (nets @ [n]))"

definition NewIpChecker :: "env \<Rightarrow> string list \<Rightarrow> error + IpChecker" where
  "NewIpChecker e localNets =
     (case NewIpChecker_loop e localNets [] of
        Inl err \<Rightarrow> Inl err
      | Inr nets \<Rightarrow> Inr \<lparr>LocalIPNets = nets\<rparr>)"

fun IsLocalIP_loop :: "env \<Rightarrow> IPNet list \<Rightarrow> IP \<Rightarrow> bool" where
  "IsLocalIP_loop e [] ip = False"
| "IsLocalIP_loop e (n # nets) ip =
     (if Contains e n ip then True else IsLocalIP_loop e nets ip)"

definition IsLocalIP :: "env \<Rightarrow> IpChecker \<Rightarrow> IP \<Rightarrow> bool" where
  "IsLocalIP e checker ip =
     (if IsLoopback e ip \<or> IsLinkLocalUnicast e ip \<or> IsLinkLocalMulticast e ip then True
      else IsLocalIP_loop e (LocalIPNets checker) ip)"

definition GetNetIP :: "env \<Rightarrow> IpChecker \<Rightarrow> string \<Rightarrow> IP option" where
  "GetNetIP e checker domain = ParseIP e domain"

definition DomainIsIP :: "env \<Rightarrow> IpChecker \<Rightarrow> string \<Rightarrow> bool" where
  "DomainIsIP e checker domain = (GetNetIP e checker domain \<noteq> None)"

text \<open>
  \<^verbatim>\<open>GetDomainIP\<close> returns \<^verbatim>\<open>(string, error)\<close>: the pair of the address and the
  error, \<open>None\<close> for \<^verbatim>\<open>nil\<close>.
\<close>

definition GetDomainIP ::
  "env \<Rightarrow> IpChecker \<Rightarrow> string \<Rightarrow> state \<Rightarrow> (string \<times> error option) \<times> state" where
  "GetDomainIP e checker domain s =
     (if DomainIsIP e checker domain then ((domain, None), s)
      else
        (case do_LookupHost e domain s of
           (Inl err, s') \<Rightarrow> (([], Some err), s')
         | (Inr ips, s') \<Rightarrow>
             (case ips of
                [] \<Rightarrow> (([], Some ErrEmptyARecords), s')
              | ip # _ \<Rightarrow> ((ip, None), s'))))"

subsection \<open>The reputation client\<close>

record WhitelisterApi =
  CheckIpApiUrl :: string
  CheckDomainApiUrl :: string
  MaxTries :: int
  SleepTime :: int

record Whitelister =
  checkDomainApiUrl :: string
  checkIpApiUrl :: string
  maxTries :: int
  sleepTime :: int

definition NewWhitelister :: "WhitelisterApi \<Rightarrow> Whitelister" where
  "NewWhitelister cfg =
     \<lparr>checkDomainApiUrl = CheckDomainApiUrl cfg,
      checkIpApiUrl = CheckIpApiUrl cfg,
      maxTries = MaxTries cfg,
      sleepTime = SleepTime cfg\<rparr>"

text \<open>
  The top of the loop body: before every try but the first,
  \<^verbatim>\<open>sleepDuration := checker.sleepTime * time.Duration(try)\<close> (a 64-bit product) and
  a sleep when it is positive.
\<close>

definition backoff :: "Whitelister \<Rightarrow> int \<Rightarrow> state \<Rightarrow> state" where
  "backoff checker try s =
     (if 1 < try then
        (let sleepDuration = wrap64 (sleepTime checker * try)
         in if 0 < sleepDuration then time_Sleep sleepDuration s else s)
      else s)"

text \<open>
  The rest of the loop body, up to the \<^verbatim>\<open>continue\<close> or the parsed result: the request,
  reading the body, the status check and the JSON decoding, in the order of the source.
  \<open>None\<close> is \<^verbatim>\<open>continue\<close>, \<open>Some r\<close> is \<^verbatim>\<open>response.Result\<close>.
\<close>

definition attempt ::
  "env \<Rightarrow> (string \<Rightarrow> bool option) \<Rightarrow> string \<Rightarrow> state \<Rightarrow> bool option \<times> state" where
  "attempt e unmarshal url s =
     (case do_http_Get e url s of
        (None, s') \<Rightarrow> (None, s')
      | (Some resp, s') \<Rightarrow>
          (case Body resp of
             None \<Rightarrow> (None, s')
           | Some body \<Rightarrow>
               if StatusCode resp \<noteq> 200 then (None, s')
               else
                 (case unmarshal body of
                    None \<Rightarrow> (None, s')
                  | Some result \<Rightarrow> (Some result, s'))))"

text \<open>
  The loop \<^verbatim>\<open>for try := 1; try <= maxTries; try++\<close>. The two methods
  \<^verbatim>\<open>DomainIsWhite\<close> and \<^verbatim>\<open>IpIsWhite\<close> have the same loop, up to the endpoint, the
  cache key and the struct the body is decoded into, so it is written once. \<^verbatim>\<open>try++\<close>
  wraps; the loop need not end, so the result is an option and \<open>None\<close> is a run that
  never returns. A result is Go's pair \<^verbatim>\<open>(bool, error)\<close> and the state after.
\<close>

partial_function (option) tries ::
  "env \<Rightarrow> Whitelister \<Rightarrow> (string \<Rightarrow> bool option) \<Rightarrow> string \<Rightarrow> string \<Rightarrow> int \<Rightarrow> state
     \<Rightarrow> ((bool \<times> error option) \<times> state) option" where
  "tries e checker unmarshal url key try s =
     (if try \<le> maxTries checker then
        (case attempt e unmarshal url (backoff checker try s) of
           (None, s') \<Rightarrow> tries e checker unmarshal url key (wrap64 (try + 1)) s'
         | (Some isWhite, s') \<Rightarrow> Some ((isWhite, None), memcache_Set key isWhite s'))
      else Some ((False, None), s))"

definition DomainIsWhite ::
  "env \<Rightarrow> Whitelister \<Rightarrow> string \<Rightarrow> state \<Rightarrow> ((bool \<times> error option) \<times> state) option" where
  "DomainIsWhite e checker domain s =
     (let url = Sprintf e (checkDomainApiUrl checker) domain
      in if ParseIP e domain \<noteq> None then Some ((False, None), s)
         else
           (case memcache_Get domain s of
              (Some isWhite, s') \<Rightarrow> Some ((isWhite, None), s')
            | (None, s') \<Rightarrow> tries e checker (Unmarshal_Domain e) url domain 1 s'))"

definition IpIsWhite ::
  "env \<Rightarrow> Whitelister \<Rightarrow> string \<Rightarrow> state \<Rightarrow> ((bool \<times> error option) \<times> state) option" where
  "IpIsWhite e checker ip s =
     (let url = Sprintf e (checkIpApiUrl checker) ip
      in (case memcache_Get ip s of
            (Some isWhite, s') \<Rightarrow> Some ((isWhite, None), s')
          | (None, s') \<Rightarrow> tries e checker (Unmarshal_Ip e) url ip 1 s'))"

subsection \<open>The validator\<close>

text \<open>
  The \<^verbatim>\<open>Validator\<close> holds pointers to its three checkers and to its cache. The
  checkers never change after construction; the cache is the field \<open>DomainCache\<close> of
  the state.
\<close>

record Validator =
  UrlBlacklister :: UrlBlacklister
  IpChecker :: IpChecker
  Whitelister :: Whitelister

definition getDomainCache :: "Validator \<Rightarrow> string \<Rightarrow> state \<Rightarrow> bool option \<times> state" where
  "getDomainCache v domain s =
     (cache_Get (DomainCache s) domain (now s), emit (CacheGet Decision domain) s)"

definition setDomainCache :: "Validator \<Rightarrow> string \<Rightarrow> bool \<Rightarrow> state \<Rightarrow> state" where
  "setDomainCache v domain val s =
     emit (CacheSet Decision domain val)
       (s\<lparr>DomainCache := cache_Set (DomainCache s) domain val (30 * Minute) (now s)\<rparr>)"

definition getFullDomain :: "Validator \<Rightarrow> string \<Rightarrow> string \<Rightarrow> string" where
  "getFullDomain v scheme domain = scheme @ ''://'' @ domain"

text \<open>\<^verbatim>\<open>ParseDomain\<close> returns the full domain, the domain and the error.\<close>

definition ParseDomain :: "env \<Rightarrow> Validator \<Rightarrow> string \<Rightarrow> string \<times> string \<times> error option" where
  "ParseDomain e v urlString =
     (if urlString = [] then ([], [], Some ErrEmptyUrl)
      else
        (case url_Parse e urlString of
           None \<Rightarrow> ([], [], Some ErrUrlParse)
         | Some parsedData \<Rightarrow>
             (let domain = Hostname parsedData
              in if domain = [] then ([], [], Some ErrEmptyDomain)
                 else if DomainIsIP e (IpChecker v) domain
                   then (getFullDomain v (Scheme parsedData) domain, domain, None)
                 else (getFullDomain v (Scheme parsedData) domain, domain, None))))"

definition DomainRequiresProcessing ::
  "env \<Rightarrow> Validator \<Rightarrow> string \<Rightarrow> state \<Rightarrow> ((bool \<times> error option) \<times> state) option" where
  "DomainRequiresProcessing e v domain s =
     (if DomainIsIP e (IpChecker v) domain then
        (case GetNetIP e (IpChecker v) domain of
           None \<Rightarrow> Some ((False, None), s)
         | Some netIP \<Rightarrow>
             if IsLocalIP e (IpChecker v) netIP then Some ((False, None), s)
             else
               (case IpIsWhite e (Whitelister v) domain s of
                  None \<Rightarrow> None
                | Some ((isWhite, err), s') \<Rightarrow>
                    if err \<noteq> None then Some ((False, err), s')
                    else Some ((\<not> isWhite, None), s')))
      else
        (case DomainIsWhite e (Whitelister v) domain s of
           None \<Rightarrow> None
         | Some ((isWhite, err), s') \<Rightarrow>
             if err \<noteq> None then Some ((False, err), s')
             else if isWhite then Some ((\<not> isWhite, None), s')
             else
               (case GetDomainIP e (IpChecker v) domain s' of
                  ((_, Some _), s'') \<Rightarrow> Some ((False, None), s'')
                | ((_, None), s'') \<Rightarrow> Some ((True, None), s''))))"

definition UrlRequiresProcessing ::
  "env \<Rightarrow> Validator \<Rightarrow> string \<Rightarrow> state \<Rightarrow> ((bool \<times> error option) \<times> state) option" where
  "UrlRequiresProcessing e v url s =
     (if UrlIsBlack e (UrlBlacklister v) url then Some ((False, None), s)
      else
        (case ParseDomain e v url of
           (_, domain, Some err) \<Rightarrow> Some ((False, Some err), s)
         | (_, domain, None) \<Rightarrow>
             (case getDomainCache v domain s of
                (Some domainNeedsProcessing, s') \<Rightarrow> Some ((domainNeedsProcessing, None), s')
              | (None, s') \<Rightarrow>
                  (case DomainRequiresProcessing e v domain s' of
                     None \<Rightarrow> None
                   | Some ((result, Some err), s'') \<Rightarrow> Some ((False, Some err), s'')
                   | Some ((result, None), s'') \<Rightarrow>
                       Some ((result, None), setDomainCache v domain result s'')))))"

subsection \<open>Configuration\<close>

definition IsValidUrl :: "env \<Rightarrow> string \<Rightarrow> bool" where
  "IsValidUrl e urlstr =
     (case url_Parse e urlstr of
        None \<Rightarrow> False
      | Some u \<Rightarrow> if Scheme u \<noteq> ''http'' \<and> Scheme u \<noteq> ''https'' then False else True)"

record ValidatorConfig =
  UrlBlackListRegexps :: "string list"
  LocalIPNetsCfg :: "string list"
  WhitelisterApi :: WhitelisterApi

text \<open>
  The field \<^verbatim>\<open>LocalIPNets\<close> of \<^verbatim>\<open>ValidatorConfig\<close> is \<open>LocalIPNetsCfg\<close> here (the
  name is taken by the field of \<^verbatim>\<open>IpChecker\<close>).

  \<^verbatim>\<open>IsValid\<close> has a pointer receiver and answers \<^verbatim>\<open>false\<close> for \<^verbatim>\<open>nil\<close>: the
  argument is an option. Otherwise it starts from \<^verbatim>\<open>valid := true\<close> and runs its
  checks in order, each of which can only set \<^verbatim>\<open>valid = false\<close>. The loops over the
  two lists are \<open>empty_item\<close>.
\<close>

fun empty_item :: "string list \<Rightarrow> bool \<Rightarrow> bool" where
  "empty_item [] valid = valid"
| "empty_item (rx # rxs) valid = empty_item rxs (if rx = [] then False else valid)"

definition ValidatorConfig_IsValid :: "env \<Rightarrow> ValidatorConfig option \<Rightarrow> bool" where
  "ValidatorConfig_IsValid e cfg' =
     (case cfg' of
        None \<Rightarrow> False
      | Some cfg \<Rightarrow>
          (let valid = True;
               blRegexps = UrlBlackListRegexps cfg;
               valid = (if length blRegexps = 0 then False else valid);
               valid = empty_item blRegexps valid;
               localIpNets = LocalIPNetsCfg cfg;
               valid = (if length localIpNets = 0 then False else valid);
               valid = empty_item localIpNets valid;
               wlCfg = WhitelisterApi cfg;
               valid = (if \<not> IsValidUrl e (CheckDomainApiUrl wlCfg) then False else valid);
               valid = (if \<not> IsValidUrl e (CheckIpApiUrl wlCfg) then False else valid);
               valid = (if MaxTries wlCfg \<le> 0 then False else valid);
               valid = (if SleepTime wlCfg < Millisecond then False else valid)
           in valid))"

text \<open>
  \<^verbatim>\<open>NewValidator\<close>: the new validator, or what stopped the construction. The caches
  start empty (they are in the state).
\<close>

definition NewValidator :: "env \<Rightarrow> ValidatorConfig \<Rightarrow> error + Validator" where
  "NewValidator e cfg =
     (if \<not> ValidatorConfig_IsValid e (Some cfg) then Inl ErrValidatorCfg
      else
        (case NewBlacklister e (UrlBlackListRegexps cfg) of
           Inl err \<Rightarrow> Inl err
         | Inr bl \<Rightarrow>
             (case NewIpChecker e (LocalIPNetsCfg cfg) of
                Inl err \<Rightarrow> Inl err
              | Inr ip \<Rightarrow>
                  Inr \<lparr>UrlBlacklister = bl, IpChecker = ip,
                       Whitelister = NewWhitelister (WhitelisterApi cfg)\<rparr>)))"

text \<open>
  The HTTP server's configuration. \<^verbatim>\<open>AuthTokens\<close> is a Go map; its entries are listed
  as pairs, so \<^verbatim>\<open>len(c.AuthTokens)\<close> is the length of the list. \<^verbatim>\<open>errs\<close> is the
  slice of messages the method collects and logs.
\<close>

record HttpConfig =
  Listen :: string
  AuthTokens :: "(string \<times> string) list"

datatype http_cfg_error = EmptyListen | EmptyAuthTokens

definition HttpConfig_IsValid_run :: "HttpConfig \<Rightarrow> bool \<times> http_cfg_error list" where
  "HttpConfig_IsValid_run c =
     (let valid = True;
          errs = [];
          (valid, errs) = (if Listen c = [] then (False, errs @ [EmptyListen]) else (valid, errs));
          errs = (if length (AuthTokens c) = 0 then errs @ [EmptyAuthTokens] else errs)
      in (valid, errs))"

definition HttpConfig_IsValid :: "HttpConfig \<Rightarrow> bool" where
  "HttpConfig_IsValid c = fst (HttpConfig_IsValid_run c)"

text \<open>
  Of the \<^verbatim>\<open>Server\<close> that \<^verbatim>\<open>NewServer\<close> builds, the address and the tokens; the
  router, the handlers and the collaborators passed through play no part in whether it
  is built.
\<close>

record Server =
  Addr :: string
  ServerAuthTokens :: "(string \<times> string) list"

definition NewServer :: "HttpConfig \<Rightarrow> error + Server" where
  "NewServer cfg =
     (if \<not> HttpConfig_IsValid cfg then Inl ErrHttpCfg
      else Inr \<lparr>Addr = '':'' @ Listen cfg, ServerAuthTokens = AuthTokens cfg\<rparr>)"

subsection \<open>Vocabulary of the properties\<close>

text \<open>
  A try fails when the loop body reaches one of its four \<^verbatim>\<open>continue\<close>s: the request
  returns an error, the body cannot be read, the status is not 200, or the body does not
  decode.
\<close>

definition failed :: "(string \<Rightarrow> bool option) \<Rightarrow> Response option \<Rightarrow> bool" where
  "failed unmarshal r =
     (case r of
        None \<Rightarrow> True
      | Some resp \<Rightarrow>
          (case Body resp of
             None \<Rightarrow> True
           | Some body \<Rightarrow> if StatusCode resp \<noteq> 200 then True else unmarshal body = None))"

text \<open>What try \<open>n\<close> adds to the events when it fails: its sleep, if any, and its request.\<close>

definition try_events :: "Whitelister \<Rightarrow> string \<Rightarrow> int \<Rightarrow> event list" where
  "try_events w url n =
     (if 1 < n \<and> 0 < wrap64 (sleepTime w * n) then [Sleep (wrap64 (sleepTime w * n))] else [])
       @ [HttpGet url]"

text \<open>
  A name resolves, at the external call with number \<open>n\<close>, when \<^verbatim>\<open>net.LookupHost\<close>
  returns no error and at least one address: the two other outcomes are the two error
  returns of \<^verbatim>\<open>GetDomainIP\<close>.
\<close>

definition resolves :: "env \<Rightarrow> nat \<Rightarrow> string \<Rightarrow> bool" where
  "resolves e n domain =
     (case LookupHost e n domain of
        Inl err \<Rightarrow> False
      | Inr [] \<Rightarrow> False
      | Inr (ip # ips) \<Rightarrow> True)"

fun is_DnsLookup :: "event \<Rightarrow> bool" where
  "is_DnsLookup (DnsLookup _) = True"
| "is_DnsLookup _ = False"

fun is_HttpGet :: "event \<Rightarrow> bool" where
  "is_HttpGet (HttpGet _) = True"
| "is_HttpGet _ = False"

subsection \<open>The standard library, for the concrete environment\<close>

text \<open>
  What the concrete environment below needs of the packages \<^verbatim>\<open>net\<close> and
  \<^verbatim>\<open>fmt\<close>. \<^verbatim>\<open>net.ParseIP\<close> returns an IPv4 address in its 16-byte form
  (\<^verbatim>\<open>net.IPv4\<close>); \<^verbatim>\<open>To4\<close> gives the four bytes of such an address, or of one
  that has four bytes already, and \<^verbatim>\<open>nil\<close> otherwise. The three predicates and
  \<^verbatim>\<open>IPNet.Contains\<close> are those of \<^verbatim>\<open>net/ip.go\<close>; the network of
  \<^verbatim>\<open>Contains\<close> is one that \<^verbatim>\<open>net.ParseCIDR\<close> returned, so its address and its
  mask have the same length.
\<close>

unbundle bit_operations_syntax

definition IPv4 :: "8 word \<Rightarrow> 8 word \<Rightarrow> 8 word \<Rightarrow> 8 word \<Rightarrow> IP" where
  "IPv4 a b c d = [0, 0, 0, 0, 0, 0, 0, 0, 0, 0, 255, 255, a, b, c, d]"

definition To4 :: "IP \<Rightarrow> IP option" where
  "To4 ip =
     (if length ip = 4 then Some ip
      else if length ip = 16 \<and> take 10 ip = [0, 0, 0, 0, 0, 0, 0, 0, 0, 0] \<and> ip ! 10 = 255 \<and> ip ! 11 = 255
        then Some (drop 12 ip)
      else None)"

definition net_IsLoopback :: "IP \<Rightarrow> bool" where
  "net_IsLoopback ip =
     (case To4 ip of
        Some ip4 \<Rightarrow> ip4 ! 0 = 127
      | None \<Rightarrow> ip = [0, 0, 0, 0, 0, 0, 0, 0, 0, 0, 0, 0, 0, 0, 0, 1])"

definition net_IsLinkLocalUnicast :: "IP \<Rightarrow> bool" where
  "net_IsLinkLocalUnicast ip =
     (case To4 ip of
        Some ip4 \<Rightarrow> ip4 ! 0 = 169 \<and> ip4 ! 1 = 254
      | None \<Rightarrow> length ip = 16 \<and> ip ! 0 = 254 \<and> (ip ! 1) AND 192 = 128)"

definition net_IsLinkLocalMulticast :: "IP \<Rightarrow> bool" where
  "net_IsLinkLocalMulticast ip =
     (case To4 ip of
        Some ip4 \<Rightarrow> ip4 ! 0 = 224 \<and> ip4 ! 1 = 0 \<and> ip4 ! 2 = 0
      | None \<Rightarrow> length ip = 16 \<and> ip ! 0 = 255 \<and> (ip ! 1) AND 15 = 2)"

definition net_Contains :: "IPNet \<Rightarrow> IP \<Rightarrow> bool" where
  "net_Contains n ip =
     (let nn = (case To4 (fst n) of Some x \<Rightarrow> x | None \<Rightarrow> fst n);
          m = snd n;
          ip' = (case To4 ip of Some x \<Rightarrow> x | None \<Rightarrow> ip)
      in length m = length nn \<and> length ip' = length nn \<and>
         map2 (\<lambda>a b. a AND b) nn m = map2 (\<lambda>a b. a AND b) ip' m)"

text \<open>
  \<^verbatim>\<open>fmt.Sprintf(format, a)\<close> with one string operand, for a format in which every
  \<^verbatim>\<open>%\<close> is followed by \<^verbatim>\<open>v\<close>, \<^verbatim>\<open>s\<close> or \<^verbatim>\<open>%\<close>: the first verb prints
  the operand, a later one prints \<^verbatim>\<open>%!v(MISSING)\<close>, \<^verbatim>\<open>%%\<close> prints a percent
  sign, and a format with no verb is followed by \<^verbatim>\<open>%!(EXTRA string=a)\<close>. The flag
  \<open>used\<close> says whether the operand has been printed.
\<close>

fun Sprintf_string :: "string \<Rightarrow> string \<Rightarrow> bool \<Rightarrow> string" where
  "Sprintf_string [] a used = (if used then [] else ''%!(EXTRA string='' @ a @ '')'')"
| "Sprintf_string (c # format) a used =
     (if c = CHR ''%'' \<and> (take 1 format = ''v'' \<or> take 1 format = ''s'') then
        (if used then ''%!'' @ take 1 format @ ''(MISSING)'' else a)
          @ Sprintf_string (drop 1 format) a True
      else if c = CHR ''%'' \<and> take 1 format = ''%'' then
        c # Sprintf_string (drop 1 format) a used
      else c # Sprintf_string format a used)"

subsection \<open>A concrete environment\<close>

text \<open>
  The two bodies the reputation service of the concrete environment sends,
  \<^verbatim>\<open>{"result":true}\<close> and \<^verbatim>\<open>{"result":false}\<close> (\<open>CHR 0x22\<close> is the double
  quote).
\<close>

definition body_true :: string where
  "body_true = ''{'' @ [CHR 0x22] @ ''result'' @ [CHR 0x22] @ '':true}''"

definition body_false :: string where
  "body_false = ''{'' @ [CHR 0x22] @ ''result'' @ [CHR 0x22] @ '':false}''"

text \<open>
  One small world to run the definitions in. Of the strings used below, three are IP
  literals and \<^verbatim>\<open>10.0.0.0/8\<close> is a CIDR; the URLs that parse are listed with their
  scheme and host; the one pattern is \<^verbatim>\<open>^http://evil[.]example\<close>, which matches the
  strings that start with \<^verbatim>\<open>http://evil.example\<close>. The two endpoints of the
  reputation service are formats with the verb in the query,
  \<^verbatim>\<open>http://wl/domain?name=%v\<close> and \<^verbatim>\<open>http://wl/ip?addr=%v\<close>; the service
  allow-lists \<^verbatim>\<open>good.example\<close> and nothing else, and only \<^verbatim>\<open>new.example\<close>
  resolves. In \<open>env_down\<close> every request to the reputation service fails.
\<close>

definition env0 :: env where
  "env0 =
     \<lparr>ParseIP = (\<lambda>d. if d = ''10.0.0.5'' then Some (IPv4 10 0 0 5)
                     else if d = ''8.8.8.8'' then Some (IPv4 8 8 8 8)
                     else if d = ''127.0.0.1'' then Some (IPv4 127 0 0 1)
                     else None),
      IsLoopback = net_IsLoopback,
      IsLinkLocalUnicast = net_IsLinkLocalUnicast,
      IsLinkLocalMulticast = net_IsLinkLocalMulticast,
      Contains = net_Contains,
      ParseCIDR = (\<lambda>c. if c = ''10.0.0.0/8'' then Some ([10, 0, 0, 0], [255, 0, 0, 0]) else None),
      url_Parse = (\<lambda>u.
         if u = ''http://good.example/a'' then Some \<lparr>Scheme = ''http'', Hostname = ''good.example''\<rparr>
         else if u = ''http://good.example/b'' then Some \<lparr>Scheme = ''http'', Hostname = ''good.example''\<rparr>
         else if u = ''http://new.example/'' then Some \<lparr>Scheme = ''http'', Hostname = ''new.example''\<rparr>
         else if u = ''http://gone.example/'' then Some \<lparr>Scheme = ''http'', Hostname = ''gone.example''\<rparr>
         else if u = ''http://evil.example/login'' then Some \<lparr>Scheme = ''http'', Hostname = ''evil.example''\<rparr>
         else if u = ''http://10.0.0.5/'' then Some \<lparr>Scheme = ''http'', Hostname = ''10.0.0.5''\<rparr>
         else if u = ''http://8.8.8.8/'' then Some \<lparr>Scheme = ''http'', Hostname = ''8.8.8.8''\<rparr>
         else if u = ''http://wl/domain?name=%v'' then Some \<lparr>Scheme = ''http'', Hostname = ''wl''\<rparr>
         else if u = ''http://wl/ip?addr=%v'' then Some \<lparr>Scheme = ''http'', Hostname = ''wl''\<rparr>
         else if u = ''mailto:a'' then Some \<lparr>Scheme = ''mailto'', Hostname = []\<rparr>
         else None),
      Compile = (\<lambda>p. Some p),
      MatchString = (\<lambda>re u. re = ''^http://evil[.]example'' \<and> take 19 u = ''http://evil.example''),
      Sprintf = (\<lambda>format a. Sprintf_string format a False),
      Unmarshal_Domain = (\<lambda>b. if b = body_true then Some True
                              else if b = body_false then Some False else None),
      Unmarshal_Ip = (\<lambda>b. if b = body_true then Some True
                          else if b = body_false then Some False else None),
      http_Get = (\<lambda>n u.
         if u = ''http://wl/domain?name=good.example''
           then Some \<lparr>StatusCode = 200, Body = Some body_true\<rparr>
         else Some \<lparr>StatusCode = 200, Body = Some body_false\<rparr>),
      LookupHost = (\<lambda>n d. if d = ''new.example'' then Inr [''93.184.216.34''] else Inl ErrLookupHost),
      latency = (\<lambda>n. 5)\<rparr>"

definition env_down :: env where
  "env_down = env0\<lparr>http_Get := (\<lambda>n u. None)\<rparr>"

definition s0 :: state where
  "s0 = \<lparr>now = 0, calls = 0, events = [], memcache = Map.empty, DomainCache = Map.empty\<rparr>"

text \<open>
  A configuration, and the validator \<^verbatim>\<open>NewValidator\<close> builds from it in this
  environment.
\<close>

definition cfg0 :: ValidatorConfig where
  "cfg0 =
     \<lparr>UrlBlackListRegexps = [''^http://evil[.]example''],
      LocalIPNetsCfg = [''10.0.0.0/8''],
      WhitelisterApi =
        \<lparr>CheckIpApiUrl = ''http://wl/ip?addr=%v'', CheckDomainApiUrl = ''http://wl/domain?name=%v'',
         MaxTries = 3, SleepTime = 2 * Millisecond\<rparr>\<rparr>"

definition v0 :: Validator where
  "v0 =
     \<lparr>UrlBlacklister = \<lparr>Regexps = [''^http://evil[.]example'']\<rparr>,
      IpChecker = \<lparr>LocalIPNets = [([10, 0, 0, 0], [255, 0, 0, 0])]\<rparr>,
      Whitelister =
        \<lparr>checkDomainApiUrl = ''http://wl/domain?name=%v'', checkIpApiUrl = ''http://wl/ip?addr=%v'',
         maxTries = 3, sleepTime = 2 * Millisecond\<rparr>\<rparr>"

text \<open>
  A configuration that \<^verbatim>\<open>IsValid\<close> accepts, with a base sleep of \<open>2 ^ 62\<close>
  nanoseconds: twice that is no longer a 64-bit duration.
\<close>

definition cfg_long :: ValidatorConfig where
  "cfg_long =
     cfg0\<lparr>WhitelisterApi :=
        \<lparr>CheckIpApiUrl = ''http://wl/ip?addr=%v'', CheckDomainApiUrl = ''http://wl/domain?name=%v'',
         MaxTries = 2, SleepTime = 2 ^ 62\<rparr>\<rparr>"

definition w_long :: Whitelister where
  "w_long =
     \<lparr>checkDomainApiUrl = ''http://wl/domain?name=%v'', checkIpApiUrl = ''http://wl/ip?addr=%v'',
      maxTries = 2, sleepTime = 2 ^ 62\<rparr>"

text \<open>
  A state in which the decision cache holds an entry for \<^verbatim>\<open>good.example\<close> that
  has not expired, and an HTTP configuration with a listen address and no token.
\<close>

definition s_cached :: state where
  "s_cached = s0\<lparr>DomainCache := [''good.example'' \<mapsto> (True, 5)]\<rparr>"

definition cfg_noauth :: HttpConfig where
  "cfg_noauth = \<lparr>Listen = ''8080'', AuthTokens = []\<rparr>"

section \<open>Properties\<close>

subsection \<open>The retry loop\<close>

lemma wrap64_id: "- (2 ^ 63) \<le> x \<Longrightarrow> x < 2 ^ 63 \<Longrightarrow> wrap64 x = x"
  unfolding wrap64_def by simp

lemma attempt_frame:
  "attempt e un url s = (r, s') \<Longrightarrow> s' = external e (HttpGet url) s"
  by (auto simp: attempt_def do_http_Get_def split: option.splits if_splits)

lemma attempt_failed:
  "fst (attempt e un url s) = None \<longleftrightarrow> failed un (http_Get e (calls s) url)"
  by (auto simp: attempt_def do_http_Get_def failed_def split: option.splits if_splits)

lemma backoff_frame:
  "DomainCache (backoff w i s) = DomainCache s"
  "memcache (backoff w i s) = memcache s"
  "calls (backoff w i s) = calls s"
  "filter is_DnsLookup (events (backoff w i s)) = filter is_DnsLookup (events s)"
  by (simp_all add: backoff_def Let_def time_Sleep_def emit_def)

lemma step_frame:
  "calls (external e ev (backoff w i s)) = Suc (calls s)"
  "memcache (external e ev (backoff w i s)) = memcache s"
  "DomainCache (external e ev (backoff w i s)) = DomainCache s"
  by (simp_all add: external_def emit_def backoff_frame)

lemma events_step:
  "events (external e (HttpGet url) (backoff w i s)) = events s @ try_events w url i"
  by (simp add: external_def emit_def backoff_def Let_def time_Sleep_def try_events_def)

text \<open>
  The loop returns whenever \<^verbatim>\<open>maxTries\<close> is not the largest \<^verbatim>\<open>int\<close>: the counter
  then passes \<^verbatim>\<open>maxTries\<close> before it can wrap.
\<close>

lemma tries_returns:
  assumes "maxTries w < MaxInt64" "- (2 ^ 63) \<le> i"
  shows "tries e w un url key i s \<noteq> None"
  using assms
proof (induction "nat (maxTries w + 1 - i)" arbitrary: i s)
  case 0
  then have "\<not> i \<le> maxTries w" by simp
  then show ?case by (subst tries.simps) simp
next
  case (Suc n)
  then have le: "i \<le> maxTries w" by simp
  have w: "wrap64 (i + 1) = i + 1"
    using le Suc.prems by (intro wrap64_id) (auto simp: MaxInt64_def)
  obtain r s' where a: "attempt e un url (backoff w i s) = (r, s')" by fastforce
  show ?case
  proof (cases r)
    case None
    have "tries e w un url key (i + 1) s' \<noteq> None"
      using Suc.hyps Suc.prems by (intro Suc.hyps(1)) auto
    then show ?thesis using le a None w by (subst tries.simps) simp
  next
    case (Some b)
    then show ?thesis using le a by (subst tries.simps) simp
  qed
qed

text \<open>
  Whatever the loop returns, the error is \<^verbatim>\<open>nil\<close>, and the loop has neither resolved a
  name nor touched the decision cache.
\<close>

lemma tries_result:
  "tries e w un url key i s = Some y \<Longrightarrow>
     snd (fst y) = None \<and> DomainCache (snd y) = DomainCache s \<and>
     filter is_DnsLookup (events (snd y)) = filter is_DnsLookup (events s)"
proof (induction rule: tries.raw_induct[rotated 1, consumes 1])
  case (1 tries' e w un url key i s y)
  obtain a s1 where a: "attempt e un url (backoff w i s) = (a, s1)" by fastforce
  have s1: "s1 = external e (HttpGet url) (backoff w i s)" using attempt_frame[OF a] .
  show ?case
  proof (cases "i \<le> maxTries w")
    case False
    with 1(2) show ?thesis by auto
  next
    case True
    show ?thesis
    proof (cases a)
      case None
      with True a 1(2) have "tries' e w un url key (wrap64 (i + 1)) s1 = Some y" by simp
      from 1(1)[OF this] show ?thesis
        by (simp add: s1 external_def emit_def backoff_frame)
    next
      case (Some b)
      with True a 1(2) show ?thesis
        by (auto simp: s1 external_def emit_def backoff_frame memcache_Set_def)
    qed
  qed
qed

lemma failed_attempt_state:
  assumes "failed un (http_Get e (calls s) url)"
  shows "attempt e un url (backoff w i s) = (None, external e (HttpGet url) (backoff w i s))"
proof -
  obtain r s' where a: "attempt e un url (backoff w i s) = (r, s')" by fastforce
  have "fst (attempt e un url (backoff w i s)) = None"
    using assms by (simp add: attempt_failed backoff_frame)
  with a attempt_frame[OF a] show ?thesis by simp
qed

text \<open>
  When every remaining try fails, the loop makes each of them, in order, and gives up
  with \<^verbatim>\<open>(false, nil)\<close>, leaving both caches as they were.
\<close>

lemma tries_all_failed:
  assumes "maxTries w < MaxInt64" "- (2 ^ 63) \<le> i"
    and "\<forall>k < nat (maxTries w + 1 - i). failed un (http_Get e (calls s + k) url)"
  shows "\<exists>s'. tries e w un url key i s = Some ((False, None), s') \<and>
           events s' = events s @ concat (map (try_events w url) [i..maxTries w]) \<and>
           calls s' = calls s + nat (maxTries w + 1 - i) \<and>
           memcache s' = memcache s \<and> DomainCache s' = DomainCache s"
  using assms
proof (induction "nat (maxTries w + 1 - i)" arbitrary: i s)
  case 0
  then have "\<not> i \<le> maxTries w" by simp
  then show ?case by (subst tries.simps) simp
next
  case (Suc n)
  then have le: "i \<le> maxTries w" by simp
  have w: "wrap64 (i + 1) = i + 1"
    using le Suc.prems by (intro wrap64_id) (auto simp: MaxInt64_def)
  let ?s1 = "external e (HttpGet url) (backoff w i s)"
  have "failed un (http_Get e (calls s) url)"
    using Suc.prems(3) Suc.hyps(2) by (metis add.right_neutral zero_less_Suc)
  then have a: "attempt e un url (backoff w i s) = (None, ?s1)"
    by (rule failed_attempt_state)
  have rest: "\<forall>k < nat (maxTries w + 1 - (i + 1)). failed un (http_Get e (calls ?s1 + k) url)"
  proof (intro allI impI)
    fix k assume "k < nat (maxTries w + 1 - (i + 1))"
    then have "Suc k < nat (maxTries w + 1 - i)" by simp
    with Suc.prems(3) have "failed un (http_Get e (calls s + Suc k) url)" by blast
    then show "failed un (http_Get e (calls ?s1 + k) url)" by (simp add: step_frame)
  qed
  have "n = nat (maxTries w + 1 - (i + 1))" using Suc.hyps(2) by simp
  from Suc.hyps(1)[OF this Suc.prems(1) _ rest] Suc.prems(2)
  obtain s' where s': "tries e w un url key (i + 1) ?s1 = Some ((False, None), s')"
      "events s' = events ?s1 @ concat (map (try_events w url) [i + 1..maxTries w])"
      "calls s' = calls ?s1 + nat (maxTries w + 1 - (i + 1))"
      "memcache s' = memcache ?s1" "DomainCache s' = DomainCache ?s1"
    by auto
  have up: "[i..maxTries w] = i # [i + 1..maxTries w]" using le by (simp add: upto_rec1)
  have "tries e w un url key i s = Some ((False, None), s')"
    using le a w s'(1) by (subst tries.simps) simp
  moreover have "events s' = events s @ concat (map (try_events w url) [i..maxTries w])"
    using s'(2) by (simp add: events_step up)
  moreover have "calls s' = calls s + nat (maxTries w + 1 - i)"
    using s'(3) le by (simp add: step_frame)
  ultimately show ?case using s'(4,5) by (simp add: step_frame)
qed

text \<open>
  Where the base sleep is positive and its products with the try numbers fit in 64 bits,
  the wrap-around and the guard \<^verbatim>\<open>sleepDuration > 0\<close> play no part: try \<open>n > 1\<close>
  sleeps \<open>sleepTime * n\<close>.
\<close>

lemma try_events_plain:
  assumes "0 < sleepTime w" "sleepTime w * maxTries w \<le> MaxInt64" "1 \<le> n" "n \<le> maxTries w"
  shows "try_events w url n = (if 1 < n then [Sleep (sleepTime w * n)] else []) @ [HttpGet url]"
proof -
  have "sleepTime w * n \<le> sleepTime w * maxTries w"
    using assms by (intro mult_left_mono) auto
  then have "sleepTime w * n < 2 ^ 63" using assms(2) by (simp add: MaxInt64_def)
  moreover have "0 < sleepTime w * n" using assms by simp
  ultimately have "wrap64 (sleepTime w * n) = sleepTime w * n"
    by (intro wrap64_id) auto
  with \<open>0 < sleepTime w * n\<close> show ?thesis by (simp add: try_events_def)
qed

lemma map_try_events_plain:
  assumes "0 < sleepTime w" "sleepTime w * maxTries w \<le> MaxInt64"
  shows "map (try_events w url) [1..maxTries w] =
         map (\<lambda>n. (if 1 < n then [Sleep (sleepTime w * n)] else []) @ [HttpGet url]) [1..maxTries w]"
  using assms by (intro map_cong) (auto simp: try_events_plain)

lemma sleeps_increasing:
  assumes "0 < (b::int)"
  shows "sorted_wrt (<) (map (\<lambda>n. b * n) [2..m])"
  using assms by (simp add: sorted_wrt_map sorted_wrt_mono_rel[OF _ sorted_wrt_upto])

lemma try_events_fun:
  "try_events w url =
     (\<lambda>n. (if 1 < n \<and> 0 < wrap64 (sleepTime w * n)
            then [Sleep (wrap64 (sleepTime w * n))] else []) @ [HttpGet url])"
  by (rule ext) (simp add: try_events_def)

lemma filter_HttpGet_try_events:
  "filter is_HttpGet (try_events w url n) = [HttpGet url]"
  by (simp add: try_events_def)

lemma length_HttpGet_tries:
  "length (filter is_HttpGet (concat (map (try_events w url) [i..m]))) = nat (m + 1 - i)"
proof (induction "nat (m + 1 - i)" arbitrary: i)
  case 0
  then show ?case by simp
next
  case (Suc n)
  then have le: "i \<le> m" by simp
  have up: "[i..m] = i # [i + 1..m]" using le by (simp add: upto_rec1)
  have "n = nat (m + 1 - (i + 1))" using Suc.hyps(2) by simp
  from Suc.hyps(1)[OF this] Suc.hyps(2) show ?case
    by (simp add: up filter_HttpGet_try_events)
qed

text \<open>A first try that gets a parsed answer: the answer is cached and returned.\<close>

lemma tries_first_success:
  assumes "1 \<le> maxTries w"
    and "http_Get e (calls s) url = Some \<lparr>StatusCode = 200, Body = Some body\<rparr>"
    and "un body = Some res"
  shows "tries e w un url key 1 s =
     Some ((res, None), memcache_Set key res (external e (HttpGet url) s))"
  using assms by (subst tries.simps) (simp add: backoff_def attempt_def do_http_Get_def)

lemma DomainIsWhite_miss:
  assumes "ParseIP e d = None" and "cache_Get (memcache s) d (now s) = None"
  shows "DomainIsWhite e w d s =
     tries e w (Unmarshal_Domain e) (Sprintf e (checkDomainApiUrl w) d) d 1
       (emit (CacheGet Reputation d) s)"
  using assms by (simp add: DomainIsWhite_def memcache_Get_def)

lemma IpIsWhite_miss:
  assumes "cache_Get (memcache s) d (now s) = None"
  shows "IpIsWhite e w d s =
     tries e w (Unmarshal_Ip e) (Sprintf e (checkIpApiUrl w) d) d 1
       (emit (CacheGet Reputation d) s)"
  using assms by (simp add: IpIsWhite_def memcache_Get_def)

text \<open>
  The loop after a miss in the reputation cache, when every try fails. Its events are
  written out: the sleep before try \<open>n > 1\<close> is the wrapped product, and is there only
  when the product is positive.
\<close>

lemma lookup_all_failed:
  assumes "maxTries w < MaxInt64"
    and "\<forall>k < nat (maxTries w). failed un (http_Get e (calls s + k) url)"
  shows
    "(\<exists>s'. tries e w un url key 1 (emit (CacheGet Reputation key) s) = Some ((False, None), s') \<and>
        events s' = events s @ CacheGet Reputation key #
          concat (map (\<lambda>n. (if 1 < n \<and> 0 < wrap64 (sleepTime w * n)
                              then [Sleep (wrap64 (sleepTime w * n))] else []) @
                            [HttpGet url]) [1..maxTries w]) \<and>
        (0 < sleepTime w \<and> sleepTime w * maxTries w \<le> MaxInt64 \<longrightarrow>
           events s' = events s @ CacheGet Reputation key #
             concat (map (\<lambda>n. (if 1 < n then [Sleep (sleepTime w * n)] else []) @
                               [HttpGet url]) [1..maxTries w])) \<and>
        length (filter is_HttpGet (events s')) =
          length (filter is_HttpGet (events s)) + nat (maxTries w) \<and>
        calls s' = calls s + nat (maxTries w) \<and>
        memcache s' = memcache s \<and> DomainCache s' = DomainCache s)"
proof -
  let ?s1 = "emit (CacheGet Reputation key) s"
  have fr: "calls ?s1 = calls s" "memcache ?s1 = memcache s" "DomainCache ?s1 = DomainCache s"
    "events ?s1 = events s @ [CacheGet Reputation key]"
    by (simp_all add: emit_def)
  have b: "- (2 ^ 63) \<le> (1::int)" by simp
  from assms(2)
  have "\<forall>k < nat (maxTries w + 1 - 1). failed un (http_Get e (calls ?s1 + k) url)"
    by (simp add: fr)
  from tries_all_failed[OF assms(1) b this, of key]
  obtain s' where s': "tries e w un url key 1 ?s1 = Some ((False, None), s')"
    and ev0: "events s' = events ?s1 @ concat (map (try_events w url) [1..maxTries w])"
    and ca0: "calls s' = calls ?s1 + nat (maxTries w + 1 - 1)"
    and me0: "memcache s' = memcache ?s1" and dc0: "DomainCache s' = DomainCache ?s1"
    by blast
  have ev: "events s' =
      events s @ CacheGet Reputation key # concat (map (try_events w url) [1..maxTries w])"
    using ev0 by (simp add: fr)
  show ?thesis
  proof (intro exI[of _ s'] conjI impI)
    show "tries e w un url key 1 ?s1 = Some ((False, None), s')" by (rule s')
    show "events s' = events s @ CacheGet Reputation key #
        concat (map (\<lambda>n. (if 1 < n \<and> 0 < wrap64 (sleepTime w * n)
                            then [Sleep (wrap64 (sleepTime w * n))] else []) @
                          [HttpGet url]) [1..maxTries w])"
      using ev by (simp only: try_events_fun)
    show "length (filter is_HttpGet (events s')) =
        length (filter is_HttpGet (events s)) + nat (maxTries w)"
      by (simp add: ev length_HttpGet_tries)
    show "calls s' = calls s + nat (maxTries w)" using ca0 by (simp add: fr)
    show "memcache s' = memcache s" using me0 by (simp add: fr)
    show "DomainCache s' = DomainCache s" using dc0 by (simp add: fr)
  next
    assume "0 < sleepTime w \<and> sleepTime w * maxTries w \<le> MaxInt64"
    then have "map (try_events w url) [1..maxTries w] =
        map (\<lambda>n. (if 1 < n then [Sleep (sleepTime w * n)] else []) @ [HttpGet url])
          [1..maxTries w]"
      by (intro map_try_events_plain) simp_all
    then have "concat (map (try_events w url) [1..maxTries w]) =
        concat (map (\<lambda>n. (if 1 < n then [Sleep (sleepTime w * n)] else []) @ [HttpGet url])
          [1..maxTries w])"
      by (rule arg_cong)
    with ev show "events s' = events s @ CacheGet Reputation key #
        concat (map (\<lambda>n. (if 1 < n then [Sleep (sleepTime w * n)] else []) @
                          [HttpGet url]) [1..maxTries w])"
      by (simp only:)
  qed
qed

subsection \<open>C1: the retry bound\<close>

text \<open>
  Claim C1, as the code has it. Let \<open>maxTries\<close> be below the largest \<^verbatim>\<open>int\<close>, and
  take a host that has no live entry in the reputation cache (and, for
  \<^verbatim>\<open>DomainIsWhite\<close>, is not an IP literal). If each of the \<open>maxTries\<close> tries fails,
  then the lookup returns \<^verbatim>\<open>(false, nil)\<close> after exactly \<open>maxTries\<close> requests and
  leaves both caches as they were. After the one cache read its events are, for
  \<open>n = 1, ..., maxTries\<close> in order: a sleep of the 64-bit product \<open>sleepTime * n\<close>
  when \<open>n > 1\<close> and that product is positive, no sleep otherwise, and then one request.
  Where the base sleep is positive and \<open>sleepTime * maxTries\<close> fits in a 64-bit
  duration, the sleep before try \<open>n > 1\<close> is \<open>sleepTime * n\<close>, and these sleeps are
  strictly increasing. The same holds for \<^verbatim>\<open>IpIsWhite\<close>, which has no test for IP
  literals.
\<close>

theorem C1_retry_bound:
  assumes "maxTries w < MaxInt64"
    and "cache_Get (memcache s) host (now s) = None"
  shows
    "(ParseIP e host = None \<and>
      (\<forall>k < nat (maxTries w).
         failed (Unmarshal_Domain e)
           (http_Get e (calls s + k) (Sprintf e (checkDomainApiUrl w) host))) \<longrightarrow>
      (\<exists>s'. DomainIsWhite e w host s = Some ((False, None), s') \<and>
         events s' = events s @ CacheGet Reputation host #
           concat (map (\<lambda>n. (if 1 < n \<and> 0 < wrap64 (sleepTime w * n)
                               then [Sleep (wrap64 (sleepTime w * n))] else []) @
                             [HttpGet (Sprintf e (checkDomainApiUrl w) host)]) [1..maxTries w]) \<and>
         (0 < sleepTime w \<and> sleepTime w * maxTries w \<le> MaxInt64 \<longrightarrow>
            events s' = events s @ CacheGet Reputation host #
              concat (map (\<lambda>n. (if 1 < n then [Sleep (sleepTime w * n)] else []) @
                                [HttpGet (Sprintf e (checkDomainApiUrl w) host)]) [1..maxTries w])) \<and>
         length (filter is_HttpGet (events s')) =
           length (filter is_HttpGet (events s)) + nat (maxTries w) \<and>
         calls s' = calls s + nat (maxTries w) \<and>
         memcache s' = memcache s \<and> DomainCache s' = DomainCache s)) \<and>
     ((\<forall>k < nat (maxTries w).
         failed (Unmarshal_Ip e)
           (http_Get e (calls s + k) (Sprintf e (checkIpApiUrl w) host))) \<longrightarrow>
      (\<exists>s'. IpIsWhite e w host s = Some ((False, None), s') \<and>
         events s' = events s @ CacheGet Reputation host #
           concat (map (\<lambda>n. (if 1 < n \<and> 0 < wrap64 (sleepTime w * n)
                               then [Sleep (wrap64 (sleepTime w * n))] else []) @
                             [HttpGet (Sprintf e (checkIpApiUrl w) host)]) [1..maxTries w]) \<and>
         (0 < sleepTime w \<and> sleepTime w * maxTries w \<le> MaxInt64 \<longrightarrow>
            events s' = events s @ CacheGet Reputation host #
              concat (map (\<lambda>n. (if 1 < n then [Sleep (sleepTime w * n)] else []) @
                                [HttpGet (Sprintf e (checkIpApiUrl w) host)]) [1..maxTries w])) \<and>
         length (filter is_HttpGet (events s')) =
           length (filter is_HttpGet (events s)) + nat (maxTries w) \<and>
         calls s' = calls s + nat (maxTries w) \<and>
         memcache s' = memcache s \<and> DomainCache s' = DomainCache s)) \<and>
     (0 < sleepTime w \<longrightarrow> sorted_wrt (<) (map (\<lambda>n. sleepTime w * n) [2..maxTries w]))"
proof (intro conjI impI)
  assume a: "ParseIP e host = None \<and>
      (\<forall>k < nat (maxTries w).
         failed (Unmarshal_Domain e)
           (http_Get e (calls s + k) (Sprintf e (checkDomainApiUrl w) host)))"
  then have f: "\<forall>k < nat (maxTries w).
         failed (Unmarshal_Domain e)
           (http_Get e (calls s + k) (Sprintf e (checkDomainApiUrl w) host))"
    by simp
  from a assms(2) have eq: "DomainIsWhite e w host s =
      tries e w (Unmarshal_Domain e) (Sprintf e (checkDomainApiUrl w) host) host 1
        (emit (CacheGet Reputation host) s)"
    by (simp add: DomainIsWhite_miss)
  show
    "(\<exists>s'. DomainIsWhite e w host s = Some ((False, None), s') \<and>
        events s' = events s @ CacheGet Reputation host #
          concat (map (\<lambda>n. (if 1 < n \<and> 0 < wrap64 (sleepTime w * n)
                              then [Sleep (wrap64 (sleepTime w * n))] else []) @
                            [HttpGet (Sprintf e (checkDomainApiUrl w) host)]) [1..maxTries w]) \<and>
        (0 < sleepTime w \<and> sleepTime w * maxTries w \<le> MaxInt64 \<longrightarrow>
           events s' = events s @ CacheGet Reputation host #
             concat (map (\<lambda>n. (if 1 < n then [Sleep (sleepTime w * n)] else []) @
                               [HttpGet (Sprintf e (checkDomainApiUrl w) host)]) [1..maxTries w])) \<and>
        length (filter is_HttpGet (events s')) =
          length (filter is_HttpGet (events s)) + nat (maxTries w) \<and>
        calls s' = calls s + nat (maxTries w) \<and>
        memcache s' = memcache s \<and> DomainCache s' = DomainCache s)"
    unfolding eq using assms(1) f by (rule lookup_all_failed)
next
  assume f: "\<forall>k < nat (maxTries w).
         failed (Unmarshal_Ip e)
           (http_Get e (calls s + k) (Sprintf e (checkIpApiUrl w) host))"
  from assms(2) have eq: "IpIsWhite e w host s =
      tries e w (Unmarshal_Ip e) (Sprintf e (checkIpApiUrl w) host) host 1
        (emit (CacheGet Reputation host) s)"
    by (simp add: IpIsWhite_miss)
  show
    "(\<exists>s'. IpIsWhite e w host s = Some ((False, None), s') \<and>
        events s' = events s @ CacheGet Reputation host #
          concat (map (\<lambda>n. (if 1 < n \<and> 0 < wrap64 (sleepTime w * n)
                              then [Sleep (wrap64 (sleepTime w * n))] else []) @
                            [HttpGet (Sprintf e (checkIpApiUrl w) host)]) [1..maxTries w]) \<and>
        (0 < sleepTime w \<and> sleepTime w * maxTries w \<le> MaxInt64 \<longrightarrow>
           events s' = events s @ CacheGet Reputation host #
             concat (map (\<lambda>n. (if 1 < n then [Sleep (sleepTime w * n)] else []) @
                               [HttpGet (Sprintf e (checkIpApiUrl w) host)]) [1..maxTries w])) \<and>
        length (filter is_HttpGet (events s')) =
          length (filter is_HttpGet (events s)) + nat (maxTries w) \<and>
        calls s' = calls s + nat (maxTries w) \<and>
        memcache s' = memcache s \<and> DomainCache s' = DomainCache s)"
    unfolding eq using assms(1) f by (rule lookup_all_failed)
next
  assume "0 < sleepTime w"
  then show "sorted_wrt (<) (map (\<lambda>n. sleepTime w * n) [2..maxTries w])"
    by (rule sleeps_increasing)
qed

text \<open>
  The theorem at work: three tries with a base sleep of two milliseconds, against a
  reputation service that is down.
\<close>

theorem C1_retry_bound_witness:
  "maxTries (Whitelister v0) = 3 \<and>
   sleepTime (Whitelister v0) = 2000000 \<and>
   cache_Get (memcache s0) ''a.example'' (now s0) = None \<and>
   ParseIP env_down ''a.example'' = None \<and>
   Sprintf env_down (checkDomainApiUrl (Whitelister v0)) ''a.example'' =
     ''http://wl/domain?name=a.example'' \<and>
   failed (Unmarshal_Domain env_down) (http_Get env_down 0 ''http://wl/domain?name=a.example'') \<and>
   failed (Unmarshal_Domain env_down) (http_Get env_down 1 ''http://wl/domain?name=a.example'') \<and>
   failed (Unmarshal_Domain env_down) (http_Get env_down 2 ''http://wl/domain?name=a.example'') \<and>
   (\<exists>s'. DomainIsWhite env_down (Whitelister v0) ''a.example'' s0 = Some ((False, None), s') \<and>
      events s' =
        [CacheGet Reputation ''a.example'',
         HttpGet ''http://wl/domain?name=a.example'',
         Sleep 4000000, HttpGet ''http://wl/domain?name=a.example'',
         Sleep 6000000, HttpGet ''http://wl/domain?name=a.example''] \<and>
      length (filter is_HttpGet (events s')) = 3 \<and>
      calls s' = 3 \<and> memcache s' = memcache s0 \<and> DomainCache s' = DomainCache s0)"
proof -
  let ?w = "Whitelister v0"
  let ?u = "Sprintf env_down (checkDomainApiUrl ?w) ''a.example''"
  have h1: "0 < sleepTime ?w \<and> sleepTime ?w * maxTries ?w \<le> MaxInt64"
    by (simp add: v0_def Millisecond_def MaxInt64_def)
  have h3: "maxTries ?w < MaxInt64" by (simp add: v0_def MaxInt64_def)
  have h4: "cache_Get (memcache s0) ''a.example'' (now s0) = None"
    by (simp add: s0_def cache_Get_def)
  have h5: "ParseIP env_down ''a.example'' = None" by (simp add: env_down_def env0_def)
  have u: "?u = ''http://wl/domain?name=a.example''"
    by (simp add: env_down_def env0_def v0_def)
  have f: "failed (Unmarshal_Domain env_down) (http_Get env_down k x)" for k x
    by (simp add: env_down_def failed_def)
  have h6: "\<forall>k < nat (maxTries ?w).
      failed (Unmarshal_Domain env_down) (http_Get env_down (calls s0 + k) ?u)"
    using f by simp
  from C1_retry_bound[OF h3 h4, of env_down, THEN conjunct1, THEN mp, OF conjI[OF h5 h6]]
  obtain s' where r: "DomainIsWhite env_down ?w ''a.example'' s0 = Some ((False, None), s')"
    and ev: "0 < sleepTime ?w \<and> sleepTime ?w * maxTries ?w \<le> MaxInt64 \<longrightarrow>
      events s' = events s0 @ CacheGet Reputation ''a.example'' #
        concat (map (\<lambda>n. (if 1 < n then [Sleep (sleepTime ?w * n)] else []) @
                          [HttpGet ?u]) [1..maxTries ?w])"
    and n: "length (filter is_HttpGet (events s')) =
      length (filter is_HttpGet (events s0)) + nat (maxTries ?w)"
    and c: "calls s' = calls s0 + nat (maxTries ?w)"
    and m: "memcache s' = memcache s0" and d: "DomainCache s' = DomainCache s0"
    by blast
  from ev h1 have "events s' = events s0 @ CacheGet Reputation ''a.example'' #
        concat (map (\<lambda>n. (if 1 < n then [Sleep (sleepTime ?w * n)] else []) @
                          [HttpGet ?u]) [1..maxTries ?w])"
    by blast
  then have ev': "events s' =
        [CacheGet Reputation ''a.example'',
         HttpGet ''http://wl/domain?name=a.example'',
         Sleep 4000000, HttpGet ''http://wl/domain?name=a.example'',
         Sleep 6000000, HttpGet ''http://wl/domain?name=a.example'']"
    unfolding u by (simp add: v0_def s0_def Millisecond_def upto_rec1)
  have n': "length (filter is_HttpGet (events s')) = 3"
    using n by (simp add: v0_def s0_def)
  have c': "calls s' = 3" using c by (simp add: v0_def s0_def)
  have "\<exists>s'. DomainIsWhite env_down ?w ''a.example'' s0 = Some ((False, None), s') \<and>
      events s' =
        [CacheGet Reputation ''a.example'',
         HttpGet ''http://wl/domain?name=a.example'',
         Sleep 4000000, HttpGet ''http://wl/domain?name=a.example'',
         Sleep 6000000, HttpGet ''http://wl/domain?name=a.example''] \<and>
      length (filter is_HttpGet (events s')) = 3 \<and>
      calls s' = 3 \<and> memcache s' = memcache s0 \<and> DomainCache s' = DomainCache s0"
    using r ev' n' c' m d by (intro exI[of _ s'] conjI)
  moreover have "maxTries ?w = 3" "sleepTime ?w = 2000000"
    by (simp_all add: v0_def Millisecond_def)
  ultimately show ?thesis using h4 h5 u f by simp
qed

text \<open>
  The sleep before try \<open>n\<close> is not always \<open>sleepTime * n\<close>, also for a configuration
  that \<^verbatim>\<open>IsValid\<close> accepts. With a base sleep of \<open>2 ^ 62\<close> nanoseconds the product
  for the second try wraps to \<open>- 2 ^ 63\<close>, the guard \<^verbatim>\<open>sleepDuration > 0\<close> is false,
  and the second request follows the first with no sleep between them. And for an IP
  literal \<^verbatim>\<open>DomainIsWhite\<close> makes no try at all, whatever \<open>maxTries\<close> is.
\<close>

theorem C1_counterexample:
  "ValidatorConfig_IsValid env_down (Some cfg_long) \<and>
   NewWhitelister (WhitelisterApi cfg_long) = w_long \<and>
   maxTries w_long = 2 \<and>
   sleepTime w_long * 2 = 2 ^ 63 \<and>
   wrap64 (sleepTime w_long * 2) = - (2 ^ 63) \<and>
   cache_Get (memcache s0) ''a.example'' (now s0) = None \<and>
   ParseIP env_down ''a.example'' = None \<and>
   Sprintf env_down (checkDomainApiUrl w_long) ''a.example'' =
     ''http://wl/domain?name=a.example'' \<and>
   failed (Unmarshal_Domain env_down) (http_Get env_down 0 ''http://wl/domain?name=a.example'') \<and>
   failed (Unmarshal_Domain env_down) (http_Get env_down 1 ''http://wl/domain?name=a.example'') \<and>
   (\<exists>s'. DomainIsWhite env_down w_long ''a.example'' s0 = Some ((False, None), s') \<and>
      events s' =
        [CacheGet Reputation ''a.example'',
         HttpGet ''http://wl/domain?name=a.example'',
         HttpGet ''http://wl/domain?name=a.example''] \<and>
      Sleep (sleepTime w_long * 2) \<notin> set (events s')) \<and>
   ParseIP env_down ''8.8.8.8'' = Some (IPv4 8 8 8 8) \<and>
   cache_Get (memcache s0) ''8.8.8.8'' (now s0) = None \<and>
   DomainIsWhite env_down w_long ''8.8.8.8'' s0 = Some ((False, None), s0) \<and>
   events s0 = []"
proof -
  have v: "ValidatorConfig_IsValid env_down (Some cfg_long)"
    by (simp add: ValidatorConfig_IsValid_def cfg_long_def cfg0_def IsValidUrl_def
        env_down_def env0_def Millisecond_def)
  have n: "NewWhitelister (WhitelisterApi cfg_long) = w_long"
    by (simp add: NewWhitelister_def cfg_long_def cfg0_def w_long_def)
  have h4: "cache_Get (memcache s0) ''a.example'' (now s0) = None"
    by (simp add: s0_def cache_Get_def)
  have h5: "ParseIP env_down ''a.example'' = None" by (simp add: env_down_def env0_def)
  have u: "Sprintf env_down (checkDomainApiUrl w_long) ''a.example'' =
      ''http://wl/domain?name=a.example''"
    by (simp add: env_down_def env0_def w_long_def)
  have f: "failed (Unmarshal_Domain env_down) (http_Get env_down k x)" for k x
    by (simp add: env_down_def failed_def)
  have p: "sleepTime w_long * 2 = 2 ^ 63" "wrap64 (sleepTime w_long * 2) = - (2 ^ 63)"
    by (simp_all add: w_long_def wrap64_def)
  let ?s1 = "emit (CacheGet Reputation ''a.example'') s0"
  have m: "maxTries w_long < MaxInt64" by (simp add: w_long_def MaxInt64_def)
  have b: "- (2 ^ 63) \<le> (1::int)" by simp
  have a: "\<forall>k < nat (maxTries w_long + 1 - 1).
      failed (Unmarshal_Domain env_down)
        (http_Get env_down (calls ?s1 + k) ''http://wl/domain?name=a.example'')"
    using f by simp
  from tries_all_failed[OF m b a, of "''a.example''"]
  obtain s' where s': "tries env_down w_long (Unmarshal_Domain env_down)
        ''http://wl/domain?name=a.example'' ''a.example'' 1 ?s1 = Some ((False, None), s')"
    and ev0: "events s' = events ?s1 @
        concat (map (try_events w_long ''http://wl/domain?name=a.example'') [1..maxTries w_long])"
    by blast
  have d: "DomainIsWhite env_down w_long ''a.example'' s0 = Some ((False, None), s')"
    using s' by (simp add: DomainIsWhite_miss[OF h5 h4] u)
  have ev: "events s' =
        [CacheGet Reputation ''a.example'',
         HttpGet ''http://wl/domain?name=a.example'',
         HttpGet ''http://wl/domain?name=a.example'']"
    using ev0 by (simp add: emit_def s0_def w_long_def try_events_def wrap64_def upto_rec1)
  have ns: "Sleep (sleepTime w_long * 2) \<notin> set (events s')" by (simp add: ev)
  have "\<exists>s'. DomainIsWhite env_down w_long ''a.example'' s0 = Some ((False, None), s') \<and>
      events s' =
        [CacheGet Reputation ''a.example'',
         HttpGet ''http://wl/domain?name=a.example'',
         HttpGet ''http://wl/domain?name=a.example''] \<and>
      Sleep (sleepTime w_long * 2) \<notin> set (events s')"
    using d ev ns by (intro exI[of _ s'] conjI)
  moreover have "maxTries w_long = 2" by (simp add: w_long_def)
  moreover have "ParseIP env_down ''8.8.8.8'' = Some (IPv4 8 8 8 8)"
    by (simp add: env_down_def env0_def)
  moreover from this
  have "DomainIsWhite env_down w_long ''8.8.8.8'' s0 = Some ((False, None), s0)"
    by (simp add: DomainIsWhite_def)
  moreover have "cache_Get (memcache s0) ''8.8.8.8'' (now s0) = None" "events s0 = []"
    by (simp_all add: s0_def cache_Get_def)
  ultimately show ?thesis using v n h4 h5 u f p by simp
qed

subsection \<open>The checkers\<close>

lemma UrlIsBlack_loop_iff:
  "UrlIsBlack_loop e res url \<longleftrightarrow> (\<exists>re \<in> set res. MatchString e re url)"
  by (induction res) auto

lemma UrlIsBlack_iff:
  "UrlIsBlack e c url \<longleftrightarrow> (\<exists>re \<in> set (Regexps c). MatchString e re url)"
  by (simp add: UrlIsBlack_def UrlIsBlack_loop_iff)

lemma IsLocalIP_loop_iff:
  "IsLocalIP_loop e nets ip \<longleftrightarrow> (\<exists>n \<in> set nets. Contains e n ip)"
  by (induction nets) auto

lemma IsLocalIP_iff:
  "IsLocalIP e c ip \<longleftrightarrow>
     IsLoopback e ip \<or> IsLinkLocalUnicast e ip \<or> IsLinkLocalMulticast e ip \<or>
     (\<exists>n \<in> set (LocalIPNets c). Contains e n ip)"
  by (auto simp: IsLocalIP_def IsLocalIP_loop_iff)

lemma emit_frame:
  "DomainCache (emit ev s) = DomainCache s"
  "memcache (emit ev s) = memcache s"
  "calls (emit ev s) = calls s"
  "now (emit ev s) = now s"
  "events (emit ev s) = events s @ [ev]"
  by (simp_all add: emit_def)

text \<open>
  Whatever a reputation lookup returns, the error is \<^verbatim>\<open>nil\<close>, and the lookup has
  neither resolved a name nor touched the decision cache.
\<close>

lemma DomainIsWhite_result:
  assumes "DomainIsWhite e w d s = Some y"
  shows "snd (fst y) = None \<and> DomainCache (snd y) = DomainCache s \<and>
     filter is_DnsLookup (events (snd y)) = filter is_DnsLookup (events s)"
proof (cases "ParseIP e d = None")
  case False
  with assms show ?thesis by (auto simp: DomainIsWhite_def)
next
  case True
  show ?thesis
  proof (cases "cache_Get (memcache s) d (now s)")
    case (Some b)
    with True assms show ?thesis
      by (auto simp: DomainIsWhite_def memcache_Get_def emit_frame)
  next
    case None
    with True assms
    have "tries e w (Unmarshal_Domain e) (Sprintf e (checkDomainApiUrl w) d) d 1
            (emit (CacheGet Reputation d) s) = Some y"
      by (simp add: DomainIsWhite_miss)
    from tries_result[OF this] show ?thesis by (simp add: emit_frame)
  qed
qed

lemma IpIsWhite_result:
  assumes "IpIsWhite e w d s = Some y"
  shows "snd (fst y) = None \<and> DomainCache (snd y) = DomainCache s \<and>
     filter is_DnsLookup (events (snd y)) = filter is_DnsLookup (events s)"
proof (cases "cache_Get (memcache s) d (now s)")
  case (Some b)
  with assms show ?thesis
    by (auto simp: IpIsWhite_def memcache_Get_def emit_frame)
next
  case None
  with assms
  have "tries e w (Unmarshal_Ip e) (Sprintf e (checkIpApiUrl w) d) d 1
          (emit (CacheGet Reputation d) s) = Some y"
    by (simp add: IpIsWhite_miss)
  from tries_result[OF this] show ?thesis by (simp add: emit_frame)
qed

lemma DomainIsWhite_returns:
  assumes "maxTries w < MaxInt64"
  shows "DomainIsWhite e w d s \<noteq> None"
  using tries_returns[OF assms, of 1]
  by (auto simp: DomainIsWhite_def memcache_Get_def split: option.splits)

lemma IpIsWhite_returns:
  assumes "maxTries w < MaxInt64"
  shows "IpIsWhite e w d s \<noteq> None"
  using tries_returns[OF assms, of 1]
  by (auto simp: IpIsWhite_def memcache_Get_def split: option.splits)

text \<open>A lookup whose first try gets a parsed answer.\<close>

lemma DomainIsWhite_first_try:
  assumes "ParseIP e d = None" and "cache_Get (memcache s) d (now s) = None"
    and "1 \<le> maxTries w"
    and "http_Get e (calls s) (Sprintf e (checkDomainApiUrl w) d) =
           Some \<lparr>StatusCode = 200, Body = Some body\<rparr>"
    and "Unmarshal_Domain e body = Some res"
  shows "DomainIsWhite e w d s =
     Some ((res, None),
           memcache_Set d res
             (external e (HttpGet (Sprintf e (checkDomainApiUrl w) d))
                (emit (CacheGet Reputation d) s)))"
proof -
  have "http_Get e (calls (emit (CacheGet Reputation d) s)) (Sprintf e (checkDomainApiUrl w) d) =
      Some \<lparr>StatusCode = 200, Body = Some body\<rparr>"
    using assms(4) by (simp add: emit_frame)
  from tries_first_success[where un = "Unmarshal_Domain e", OF assms(3) this assms(5)]
  show ?thesis by (simp add: DomainIsWhite_miss[OF assms(1,2)])
qed

lemma IpIsWhite_first_try:
  assumes "cache_Get (memcache s) d (now s) = None"
    and "1 \<le> maxTries w"
    and "http_Get e (calls s) (Sprintf e (checkIpApiUrl w) d) =
           Some \<lparr>StatusCode = 200, Body = Some body\<rparr>"
    and "Unmarshal_Ip e body = Some res"
  shows "IpIsWhite e w d s =
     Some ((res, None),
           memcache_Set d res
             (external e (HttpGet (Sprintf e (checkIpApiUrl w) d))
                (emit (CacheGet Reputation d) s)))"
proof -
  have "http_Get e (calls (emit (CacheGet Reputation d) s)) (Sprintf e (checkIpApiUrl w) d) =
      Some \<lparr>StatusCode = 200, Body = Some body\<rparr>"
    using assms(3) by (simp add: emit_frame)
  from tries_first_success[where un = "Unmarshal_Ip e", OF assms(2) this assms(4)]
  show ?thesis by (simp add: IpIsWhite_miss[OF assms(1)])
qed

lemma GetDomainIP_name:
  assumes "\<not> DomainIsIP e c domain"
  shows "GetDomainIP e c domain s =
     ((case LookupHost e (calls s) domain of
         Inl err \<Rightarrow> ([], Some err)
       | Inr [] \<Rightarrow> ([], Some ErrEmptyARecords)
       | Inr (ip # ips) \<Rightarrow> (ip, None)),
      external e (DnsLookup domain) s)"
  using assms
  by (simp add: GetDomainIP_def do_LookupHost_def split: sum.splits list.splits)

subsection \<open>The decision for a domain\<close>

lemma DomainRequiresProcessing_name:
  assumes "\<not> DomainIsIP e (IpChecker v) d"
    and "DomainIsWhite e (Whitelister v) d s = Some ((isWhite, None), s')"
  shows "DomainRequiresProcessing e v d s =
     (if isWhite then Some ((False, None), s')
      else Some ((resolves e (calls s') d, None), external e (DnsLookup d) s'))"
  using assms
  by (simp add: DomainRequiresProcessing_def GetDomainIP_name resolves_def
      split: sum.splits list.splits)

lemma DomainRequiresProcessing_result:
  assumes "DomainRequiresProcessing e v d s = Some y"
  shows "snd (fst y) = None \<and> DomainCache (snd y) = DomainCache s"
proof (cases "DomainIsIP e (IpChecker v) d")
  case True
  then obtain ip where ip: "GetNetIP e (IpChecker v) d = Some ip" by (auto simp: DomainIsIP_def)
  show ?thesis
  proof (cases "IsLocalIP e (IpChecker v) ip")
    case l: True
    with True ip assms show ?thesis by (auto simp: DomainRequiresProcessing_def)
  next
    case l: False
    show ?thesis
    proof (cases "IpIsWhite e (Whitelister v) d s")
      case None
      with True ip l assms show ?thesis by (simp add: DomainRequiresProcessing_def)
    next
      case (Some z)
      obtain b er s' where z: "z = ((b, er), s')" by (cases z) auto
      from IpIsWhite_result[OF Some] z have r: "er = None" "DomainCache s' = DomainCache s"
        by simp_all
      from assms True ip l Some z r have "y = ((\<not> b, None), s')"
        by (simp add: DomainRequiresProcessing_def)
      with r show ?thesis by simp
    qed
  qed
next
  case False
  show ?thesis
  proof (cases "DomainIsWhite e (Whitelister v) d s")
    case None
    with False assms show ?thesis by (simp add: DomainRequiresProcessing_def)
  next
    case (Some z)
    obtain b er s' where z: "z = ((b, er), s')" by (cases z) auto
    from DomainIsWhite_result[OF Some] z have r: "er = None" "DomainCache s' = DomainCache s"
      by simp_all
    from Some z r have "DomainIsWhite e (Whitelister v) d s = Some ((b, None), s')" by simp
    from DomainRequiresProcessing_name[OF False this] assms
    have "y = (if b then ((False, None), s')
               else ((resolves e (calls s') d, None), external e (DnsLookup d) s'))"
      by (simp split: if_splits)
    with r show ?thesis by (simp add: external_def emit_def)
  qed
qed

lemma DomainRequiresProcessing_returns:
  assumes "maxTries (Whitelister v) < MaxInt64"
  shows "DomainRequiresProcessing e v d s \<noteq> None"
  using DomainIsWhite_returns[OF assms, of e d s] IpIsWhite_returns[OF assms, of e d s]
  by (auto simp: DomainRequiresProcessing_def split: option.splits prod.splits if_splits)

subsection \<open>The decision for a URL\<close>

lemma UrlRequiresProcessing_hit:
  assumes "\<not> UrlIsBlack e (UrlBlacklister v) url"
    and "ParseDomain e v url = (full, domain, None)"
    and "cache_Get (DomainCache s) domain (now s) = Some b"
  shows "UrlRequiresProcessing e v url s = Some ((b, None), emit (CacheGet Decision domain) s)"
  using assms by (simp add: UrlRequiresProcessing_def getDomainCache_def)

lemma UrlRequiresProcessing_miss:
  assumes "\<not> UrlIsBlack e (UrlBlacklister v) url"
    and "ParseDomain e v url = (full, domain, None)"
    and "cache_Get (DomainCache s) domain (now s) = None"
  shows "UrlRequiresProcessing e v url s =
     map_option (\<lambda>(r, s''). ((fst r, None), setDomainCache v domain (fst r) s''))
       (DomainRequiresProcessing e v domain (emit (CacheGet Decision domain) s))"
proof (cases "DomainRequiresProcessing e v domain (emit (CacheGet Decision domain) s)")
  case None
  with assms show ?thesis by (simp add: UrlRequiresProcessing_def getDomainCache_def)
next
  case (Some y)
  obtain r er s'' where y: "y = ((r, er), s'')" by (cases y) auto
  from DomainRequiresProcessing_result[OF Some] y have "er = None" by simp
  with assms Some y show ?thesis
    by (simp add: UrlRequiresProcessing_def getDomainCache_def)
qed

lemma UrlRequiresProcessing_miss_Some:
  assumes "\<not> UrlIsBlack e (UrlBlacklister v) url"
    and "ParseDomain e v url = (full, domain, None)"
    and "cache_Get (DomainCache s) domain (now s) = None"
    and "UrlRequiresProcessing e v url s = Some ((b, err), s1)"
  shows "err = None \<and>
     (\<exists>s''. DomainRequiresProcessing e v domain (emit (CacheGet Decision domain) s) =
              Some ((b, None), s'') \<and>
            s1 = setDomainCache v domain b s'')"
proof (cases "DomainRequiresProcessing e v domain (emit (CacheGet Decision domain) s)")
  case None
  with UrlRequiresProcessing_miss[OF assms(1-3)] assms(4) show ?thesis by simp
next
  case (Some y)
  obtain r er s'' where y: "y = ((r, er), s'')" by (cases y) auto
  from DomainRequiresProcessing_result[OF Some] y have "er = None" by simp
  with UrlRequiresProcessing_miss[OF assms(1-3)] assms(4) Some y show ?thesis by simp
qed

lemma UrlRequiresProcessing_returns:
  assumes "maxTries (Whitelister v) < MaxInt64"
  shows "UrlRequiresProcessing e v url s \<noteq> None"
proof (cases "UrlIsBlack e (UrlBlacklister v) url")
  case True
  then show ?thesis by (simp add: UrlRequiresProcessing_def)
next
  case False
  obtain full domain perr where p: "ParseDomain e v url = (full, domain, perr)"
    by (cases "ParseDomain e v url") auto
  show ?thesis
  proof (cases perr)
    case (Some x)
    with False p show ?thesis by (simp add: UrlRequiresProcessing_def)
  next
    case None
    with p have p': "ParseDomain e v url = (full, domain, None)" by simp
    show ?thesis
    proof (cases "cache_Get (DomainCache s) domain (now s)")
      case (Some c)
      from UrlRequiresProcessing_hit[OF False p' Some] show ?thesis by simp
    next
      case n: None
      have "DomainRequiresProcessing e v domain (emit (CacheGet Decision domain) s) \<noteq> None"
        using assms by (rule DomainRequiresProcessing_returns)
      then show ?thesis unfolding UrlRequiresProcessing_miss[OF False p' n] by simp
    qed
  qed
qed

lemma cache_Get_after_set:
  "cache_Get (DomainCache (setDomainCache v d r s)) d (now (setDomainCache v d r s)) = Some r"
  by (simp add: setDomainCache_def emit_def cache_Get_def cache_Set_def Minute_def)

subsection \<open>Runs in the concrete environment\<close>

lemma s0_miss:
  "cache_Get (memcache s0) d (now s0) = None"
  "cache_Get (DomainCache s0) d (now s0) = None"
  by (simp_all add: s0_def cache_Get_def)

lemma v0_maxTries: "maxTries (Whitelister v0) < MaxInt64" "1 \<le> maxTries (Whitelister v0)"
  by (simp_all add: v0_def MaxInt64_def)

lemma To4_IPv4:
  "To4 (IPv4 a b c d) = Some [a, b, c, d]"
  "To4 [a, b, c, d] = Some [a, b, c, d]"
  by (simp_all add: To4_def IPv4_def)

lemma env0_addresses:
  "ParseIP env0 ''10.0.0.5'' = Some (IPv4 10 0 0 5)"
  "ParseIP env0 ''127.0.0.1'' = Some (IPv4 127 0 0 1)"
  "ParseIP env0 ''8.8.8.8'' = Some (IPv4 8 8 8 8)"
  "Contains env0 ([10, 0, 0, 0], [255, 0, 0, 0]) (IPv4 10 0 0 5)"
  "IsLoopback env0 (IPv4 127 0 0 1)"
  "\<not> IsLocalIP env0 (IpChecker v0) (IPv4 8 8 8 8)"
  by (simp_all add: env0_def v0_def IsLocalIP_def net_Contains_def net_IsLoopback_def
      net_IsLinkLocalUnicast_def net_IsLinkLocalMulticast_def To4_IPv4)

lemma good_example_name: "\<not> DomainIsIP env0 (IpChecker v0) ''good.example''"
  by (simp add: DomainIsIP_def GetNetIP_def env0_def)

lemma good_example_lookup:
  assumes "cache_Get (memcache s) ''good.example'' (now s) = None"
  shows "DomainIsWhite env0 (Whitelister v0) ''good.example'' s =
     Some ((True, None),
           memcache_Set ''good.example'' True
             (external env0 (HttpGet ''http://wl/domain?name=good.example'')
                (emit (CacheGet Reputation ''good.example'') s)))"
proof -
  have u: "Sprintf env0 (checkDomainApiUrl (Whitelister v0)) ''good.example'' =
      ''http://wl/domain?name=good.example''"
    by (simp add: env0_def v0_def)
  have p: "ParseIP env0 ''good.example'' = None" by (simp add: env0_def)
  have h: "http_Get env0 (calls s)
      (Sprintf env0 (checkDomainApiUrl (Whitelister v0)) ''good.example'') =
      Some \<lparr>StatusCode = 200, Body = Some body_true\<rparr>"
    unfolding u by (simp add: env0_def)
  have j: "Unmarshal_Domain env0 body_true = Some True" by (simp add: env0_def)
  from DomainIsWhite_first_try[OF p assms v0_maxTries(2) h j] show ?thesis
    unfolding u .
qed

lemma good_example_decision:
  assumes "cache_Get (memcache s) ''good.example'' (now s) = None"
  shows "DomainRequiresProcessing env0 v0 ''good.example'' s =
     Some ((False, None),
           memcache_Set ''good.example'' True
             (external env0 (HttpGet ''http://wl/domain?name=good.example'')
                (emit (CacheGet Reputation ''good.example'') s)))"
  using DomainRequiresProcessing_name[OF good_example_name good_example_lookup[OF assms]]
  by simp

lemma good_example_urls:
  "\<not> UrlIsBlack env0 (UrlBlacklister v0) ''http://good.example/a''"
  "\<not> UrlIsBlack env0 (UrlBlacklister v0) ''http://good.example/b''"
  "ParseDomain env0 v0 ''http://good.example/a'' =
     (''http://good.example'', ''good.example'', None)"
  "ParseDomain env0 v0 ''http://good.example/b'' =
     (''http://good.example'', ''good.example'', None)"
  by (simp_all add: UrlIsBlack_def v0_def env0_def ParseDomain_def getFullDomain_def
      DomainIsIP_def GetNetIP_def Let_def)

lemma public_ip_lookup:
  assumes "cache_Get (memcache s) ''8.8.8.8'' (now s) = None"
  shows "IpIsWhite env0 (Whitelister v0) ''8.8.8.8'' s =
     Some ((False, None),
           memcache_Set ''8.8.8.8'' False
             (external env0 (HttpGet ''http://wl/ip?addr=8.8.8.8'')
                (emit (CacheGet Reputation ''8.8.8.8'') s)))"
proof -
  have u: "Sprintf env0 (checkIpApiUrl (Whitelister v0)) ''8.8.8.8'' =
      ''http://wl/ip?addr=8.8.8.8''"
    by (simp add: env0_def v0_def)
  have h: "http_Get env0 (calls s) (Sprintf env0 (checkIpApiUrl (Whitelister v0)) ''8.8.8.8'') =
      Some \<lparr>StatusCode = 200, Body = Some body_false\<rparr>"
    unfolding u by (simp add: env0_def)
  have j: "Unmarshal_Ip env0 body_false = Some False"
    by (simp add: env0_def body_true_def body_false_def)
  from IpIsWhite_first_try[OF assms v0_maxTries(2) h j] show ?thesis
    unfolding u .
qed

lemma unlisted_lookup:
  assumes "d = ''new.example'' \<or> d = ''gone.example''"
    and "cache_Get (memcache s) d (now s) = None"
  shows "\<not> DomainIsIP env0 (IpChecker v0) d \<and>
     DomainIsWhite env0 (Whitelister v0) d s =
       Some ((False, None),
             memcache_Set d False
               (external env0 (HttpGet (''http://wl/domain?name='' @ d))
                  (emit (CacheGet Reputation d) s)))"
proof -
  have u: "Sprintf env0 (checkDomainApiUrl (Whitelister v0)) d = ''http://wl/domain?name='' @ d"
    by (simp add: env0_def v0_def)
  have p: "ParseIP env0 d = None" using assms(1) by (auto simp: env0_def)
  have h: "http_Get env0 (calls s) (Sprintf env0 (checkDomainApiUrl (Whitelister v0)) d) =
      Some \<lparr>StatusCode = 200, Body = Some body_false\<rparr>"
    unfolding u using assms(1) by (auto simp: env0_def)
  have j: "Unmarshal_Domain env0 body_false = Some False"
    by (simp add: env0_def body_true_def body_false_def)
  from DomainIsWhite_first_try[OF p assms(2) v0_maxTries(2) h j] p show ?thesis
    unfolding u by (simp add: DomainIsIP_def GetNetIP_def)
qed

subsection \<open>C2: a domain that is a name\<close>

text \<open>
  Claim C2. Let the domain not be an IP literal, and let the reputation lookup
  \<^verbatim>\<open>DomainIsWhite\<close> return \<open>isWhite\<close>. Its error is \<^verbatim>\<open>nil\<close> and it has resolved
  no name. If the domain is allow-listed, \<^verbatim>\<open>DomainRequiresProcessing\<close> returns
  \<^verbatim>\<open>(false, nil)\<close> in the state the lookup left, so with no DNS resolution. If it is
  not, the domain is resolved once, and the result is \<^verbatim>\<open>(false, nil)\<close> when the
  resolution fails (an error or no address) and \<^verbatim>\<open>(true, nil)\<close> when it succeeds.
\<close>

theorem C2_domain_name_decision:
  assumes "\<not> DomainIsIP e (IpChecker v) domain"
    and "DomainIsWhite e (Whitelister v) domain s = Some ((isWhite, err), s')"
  shows
    "err = None \<and>
     filter is_DnsLookup (events s') = filter is_DnsLookup (events s) \<and>
     (isWhite \<longrightarrow> DomainRequiresProcessing e v domain s = Some ((False, None), s')) \<and>
     (\<not> isWhite \<and> \<not> resolves e (calls s') domain \<longrightarrow>
        DomainRequiresProcessing e v domain s =
          Some ((False, None), external e (DnsLookup domain) s')) \<and>
     (\<not> isWhite \<and> resolves e (calls s') domain \<longrightarrow>
        DomainRequiresProcessing e v domain s =
          Some ((True, None), external e (DnsLookup domain) s'))"
proof -
  from DomainIsWhite_result[OF assms(2)]
  have err: "err = None"
    and dns: "filter is_DnsLookup (events s') = filter is_DnsLookup (events s)"
    by simp_all
  from assms(2) err
  have "DomainIsWhite e (Whitelister v) domain s = Some ((isWhite, None), s')" by simp
  note r = DomainRequiresProcessing_name[OF assms(1) this]
  show ?thesis
  proof (intro conjI impI)
    show "err = None" by (rule err)
    show "filter is_DnsLookup (events s') = filter is_DnsLookup (events s)" by (rule dns)
  next
    assume isWhite
    with r show "DomainRequiresProcessing e v domain s = Some ((False, None), s')" by simp
  next
    assume "\<not> isWhite \<and> \<not> resolves e (calls s') domain"
    with r show "DomainRequiresProcessing e v domain s =
        Some ((False, None), external e (DnsLookup domain) s')"
      by simp
  next
    assume "\<not> isWhite \<and> resolves e (calls s') domain"
    with r show "DomainRequiresProcessing e v domain s =
        Some ((True, None), external e (DnsLookup domain) s')"
      by simp
  qed
qed

text \<open>
  The three cases, from the empty state: \<^verbatim>\<open>good.example\<close> is allow-listed and is
  not resolved; \<^verbatim>\<open>new.example\<close> is not allow-listed and resolves;
  \<^verbatim>\<open>gone.example\<close> is not allow-listed and does not resolve.
\<close>

theorem C2_domain_name_decision_witness:
  "(\<exists>s'. DomainIsWhite env0 (Whitelister v0) ''good.example'' s0 = Some ((True, None), s') \<and>
      DomainRequiresProcessing env0 v0 ''good.example'' s0 = Some ((False, None), s') \<and>
      events s' =
        [CacheGet Reputation ''good.example'',
         HttpGet ''http://wl/domain?name=good.example'',
         CacheSet Reputation ''good.example'' True]) \<and>
   (\<exists>s'. DomainIsWhite env0 (Whitelister v0) ''new.example'' s0 = Some ((False, None), s') \<and>
      resolves env0 (calls s') ''new.example'' \<and>
      DomainRequiresProcessing env0 v0 ''new.example'' s0 =
        Some ((True, None), external env0 (DnsLookup ''new.example'') s') \<and>
      events (external env0 (DnsLookup ''new.example'') s') =
        [CacheGet Reputation ''new.example'',
         HttpGet ''http://wl/domain?name=new.example'',
         CacheSet Reputation ''new.example'' False,
         DnsLookup ''new.example'']) \<and>
   (\<exists>s'. DomainIsWhite env0 (Whitelister v0) ''gone.example'' s0 = Some ((False, None), s') \<and>
      \<not> resolves env0 (calls s') ''gone.example'' \<and>
      DomainRequiresProcessing env0 v0 ''gone.example'' s0 =
        Some ((False, None), external env0 (DnsLookup ''gone.example'') s') \<and>
      events (external env0 (DnsLookup ''gone.example'') s') =
        [CacheGet Reputation ''gone.example'',
         HttpGet ''http://wl/domain?name=gone.example'',
         CacheSet Reputation ''gone.example'' False,
         DnsLookup ''gone.example''])"
proof (intro conjI)
  define sg where "sg = memcache_Set ''good.example'' True
     (external env0 (HttpGet ''http://wl/domain?name=good.example'')
        (emit (CacheGet Reputation ''good.example'') s0))"
  have d: "DomainIsWhite env0 (Whitelister v0) ''good.example'' s0 = Some ((True, None), sg)"
    unfolding sg_def by (rule good_example_lookup[OF s0_miss(1)])
  from C2_domain_name_decision[OF good_example_name d]
  have r: "DomainRequiresProcessing env0 v0 ''good.example'' s0 = Some ((False, None), sg)"
    by simp
  have ev: "events sg =
        [CacheGet Reputation ''good.example'',
         HttpGet ''http://wl/domain?name=good.example'',
         CacheSet Reputation ''good.example'' True]"
    by (simp add: sg_def memcache_Set_def external_def emit_def s0_def)
  from d r ev
  show "\<exists>s'. DomainIsWhite env0 (Whitelister v0) ''good.example'' s0 = Some ((True, None), s') \<and>
      DomainRequiresProcessing env0 v0 ''good.example'' s0 = Some ((False, None), s') \<and>
      events s' =
        [CacheGet Reputation ''good.example'',
         HttpGet ''http://wl/domain?name=good.example'',
         CacheSet Reputation ''good.example'' True]"
    by (intro exI[of _ sg] conjI)
next
  define sn where "sn = memcache_Set ''new.example'' False
     (external env0 (HttpGet (''http://wl/domain?name='' @ ''new.example''))
        (emit (CacheGet Reputation ''new.example'') s0))"
  from unlisted_lookup[OF _ s0_miss(1), of "''new.example''"]
  have n: "\<not> DomainIsIP env0 (IpChecker v0) ''new.example''"
    and d: "DomainIsWhite env0 (Whitelister v0) ''new.example'' s0 = Some ((False, None), sn)"
    unfolding sn_def by simp_all
  have rs: "resolves env0 (calls sn) ''new.example''" by (simp add: resolves_def env0_def)
  from C2_domain_name_decision[OF n d] rs
  have r: "DomainRequiresProcessing env0 v0 ''new.example'' s0 =
      Some ((True, None), external env0 (DnsLookup ''new.example'') sn)"
    by simp
  have ev: "events (external env0 (DnsLookup ''new.example'') sn) =
        [CacheGet Reputation ''new.example'',
         HttpGet ''http://wl/domain?name=new.example'',
         CacheSet Reputation ''new.example'' False,
         DnsLookup ''new.example'']"
    by (simp add: sn_def memcache_Set_def external_def emit_def s0_def)
  from d rs r ev
  show "\<exists>s'. DomainIsWhite env0 (Whitelister v0) ''new.example'' s0 = Some ((False, None), s') \<and>
      resolves env0 (calls s') ''new.example'' \<and>
      DomainRequiresProcessing env0 v0 ''new.example'' s0 =
        Some ((True, None), external env0 (DnsLookup ''new.example'') s') \<and>
      events (external env0 (DnsLookup ''new.example'') s') =
        [CacheGet Reputation ''new.example'',
         HttpGet ''http://wl/domain?name=new.example'',
         CacheSet Reputation ''new.example'' False,
         DnsLookup ''new.example'']"
    by (intro exI[of _ sn] conjI)
next
  define sn where "sn = memcache_Set ''gone.example'' False
     (external env0 (HttpGet (''http://wl/domain?name='' @ ''gone.example''))
        (emit (CacheGet Reputation ''gone.example'') s0))"
  from unlisted_lookup[OF _ s0_miss(1), of "''gone.example''"]
  have n: "\<not> DomainIsIP env0 (IpChecker v0) ''gone.example''"
    and d: "DomainIsWhite env0 (Whitelister v0) ''gone.example'' s0 = Some ((False, None), sn)"
    unfolding sn_def by simp_all
  have rs: "\<not> resolves env0 (calls sn) ''gone.example''" by (simp add: resolves_def env0_def)
  from C2_domain_name_decision[OF n d] rs
  have r: "DomainRequiresProcessing env0 v0 ''gone.example'' s0 =
      Some ((False, None), external env0 (DnsLookup ''gone.example'') sn)"
    by simp
  have ev: "events (external env0 (DnsLookup ''gone.example'') sn) =
        [CacheGet Reputation ''gone.example'',
         HttpGet ''http://wl/domain?name=gone.example'',
         CacheSet Reputation ''gone.example'' False,
         DnsLookup ''gone.example'']"
    by (simp add: sn_def memcache_Set_def external_def emit_def s0_def)
  from d rs r ev
  show "\<exists>s'. DomainIsWhite env0 (Whitelister v0) ''gone.example'' s0 = Some ((False, None), s') \<and>
      \<not> resolves env0 (calls s') ''gone.example'' \<and>
      DomainRequiresProcessing env0 v0 ''gone.example'' s0 =
        Some ((False, None), external env0 (DnsLookup ''gone.example'') s') \<and>
      events (external env0 (DnsLookup ''gone.example'') s') =
        [CacheGet Reputation ''gone.example'',
         HttpGet ''http://wl/domain?name=gone.example'',
         CacheSet Reputation ''gone.example'' False,
         DnsLookup ''gone.example'']"
    by (intro exI[of _ sn] conjI)
qed

subsection \<open>C3: a blacklisted URL\<close>

text \<open>
  Claim C3. If one of the configured patterns matches the URL, \<^verbatim>\<open>UrlIsBlack\<close> is
  true and \<^verbatim>\<open>UrlRequiresProcessing\<close> returns \<^verbatim>\<open>(false, nil)\<close> and leaves the state
  as it was: no cache has been read or written, no request sent and no name resolved.
  This holds whatever parsing the URL would give.
\<close>

theorem C3_blacklisted:
  assumes "re \<in> set (Regexps (UrlBlacklister v))" and "MatchString e re url"
  shows "UrlIsBlack e (UrlBlacklister v) url \<and>
         UrlRequiresProcessing e v url s = Some ((False, None), s)"
proof -
  have "UrlIsBlack e (UrlBlacklister v) url" using assms by (auto simp: UrlIsBlack_iff)
  then show ?thesis by (simp add: UrlRequiresProcessing_def)
qed

text \<open>A URL that the one pattern of \<open>v0\<close> matches.\<close>

theorem C3_blacklisted_witness:
  "Regexps (UrlBlacklister v0) = [''^http://evil[.]example''] \<and>
   MatchString env0 ''^http://evil[.]example'' ''http://evil.example/login'' \<and>
   UrlIsBlack env0 (UrlBlacklister v0) ''http://evil.example/login'' \<and>
   UrlRequiresProcessing env0 v0 ''http://evil.example/login'' s0 = Some ((False, None), s0) \<and>
   events s0 = []"
proof -
  have r: "''^http://evil[.]example'' \<in> set (Regexps (UrlBlacklister v0))"
    by (simp add: v0_def)
  have m: "MatchString env0 ''^http://evil[.]example'' ''http://evil.example/login''"
    by (simp add: env0_def)
  from C3_blacklisted[OF r m, of s0] m show ?thesis by (simp add: v0_def s0_def)
qed

subsection \<open>C4: the decision cache\<close>

text \<open>
  Claim C4. Take a URL that is not blacklisted and parses to \<open>domain\<close>. If the decision
  cache has a live entry \<open>b\<close> for the domain, \<^verbatim>\<open>UrlRequiresProcessing\<close> returns
  \<^verbatim>\<open>(b, nil)\<close> and its only effect is that one cache read: no reputation query, no
  DNS resolution. If it has none, the result is the one \<^verbatim>\<open>DomainRequiresProcessing\<close>
  computes for the domain, and it is stored in the decision cache before it is returned;
  where \<open>maxTries\<close> is below the largest \<^verbatim>\<open>int\<close> that computation returns, and the
  entry is then the one a read finds.
\<close>

theorem C4_decision_cache:
  assumes "\<not> UrlIsBlack e (UrlBlacklister v) url"
    and "ParseDomain e v url = (full, domain, None)"
  shows
    "(cache_Get (DomainCache s) domain (now s) = Some b \<longrightarrow>
        UrlRequiresProcessing e v url s = Some ((b, None), emit (CacheGet Decision domain) s)) \<and>
     (cache_Get (DomainCache s) domain (now s) = None \<longrightarrow>
        UrlRequiresProcessing e v url s =
          map_option (\<lambda>(r, s''). ((fst r, None), setDomainCache v domain (fst r) s''))
            (DomainRequiresProcessing e v domain (emit (CacheGet Decision domain) s))) \<and>
     (cache_Get (DomainCache s) domain (now s) = None \<and> maxTries (Whitelister v) < MaxInt64 \<longrightarrow>
        (\<exists>r s''. DomainRequiresProcessing e v domain (emit (CacheGet Decision domain) s) =
                   Some ((r, None), s'') \<and>
                 UrlRequiresProcessing e v url s =
                   Some ((r, None), setDomainCache v domain r s'') \<and>
                 cache_Get (DomainCache (setDomainCache v domain r s'')) domain
                   (now (setDomainCache v domain r s'')) = Some r))"
proof (intro conjI impI)
  assume "cache_Get (DomainCache s) domain (now s) = Some b"
  with assms show "UrlRequiresProcessing e v url s =
      Some ((b, None), emit (CacheGet Decision domain) s)"
    by (rule UrlRequiresProcessing_hit)
next
  assume "cache_Get (DomainCache s) domain (now s) = None"
  with assms show "UrlRequiresProcessing e v url s =
      map_option (\<lambda>(r, s''). ((fst r, None), setDomainCache v domain (fst r) s''))
        (DomainRequiresProcessing e v domain (emit (CacheGet Decision domain) s))"
    by (rule UrlRequiresProcessing_miss)
next
  assume a: "cache_Get (DomainCache s) domain (now s) = None \<and>
    maxTries (Whitelister v) < MaxInt64"
  let ?s1 = "emit (CacheGet Decision domain) s"
  from a have m: "maxTries (Whitelister v) < MaxInt64"
    and miss: "cache_Get (DomainCache s) domain (now s) = None"
    by simp_all
  have "DomainRequiresProcessing e v domain ?s1 \<noteq> None"
    using m by (rule DomainRequiresProcessing_returns)
  then obtain y where y: "DomainRequiresProcessing e v domain ?s1 = Some y"
    by blast
  obtain r er s'' where y3: "y = ((r, er), s'')" by (cases y) auto
  from DomainRequiresProcessing_result[OF y] y3 have er: "er = None" by simp
  from y3 er have yy: "y = ((r, None), s'')" by simp
  have u: "UrlRequiresProcessing e v url s = Some ((r, None), setDomainCache v domain r s'')"
    unfolding UrlRequiresProcessing_miss[OF assms miss] y yy by simp
  have c: "cache_Get (DomainCache (setDomainCache v domain r s'')) domain
      (now (setDomainCache v domain r s'')) = Some r"
    by (rule cache_Get_after_set)
  from y yy have d: "DomainRequiresProcessing e v domain ?s1 = Some ((r, None), s'')" by simp
  from d u c
  show "\<exists>r s''. DomainRequiresProcessing e v domain ?s1 = Some ((r, None), s'') \<and>
      UrlRequiresProcessing e v url s = Some ((r, None), setDomainCache v domain r s'') \<and>
      cache_Get (DomainCache (setDomainCache v domain r s'')) domain
        (now (setDomainCache v domain r s'')) = Some r"
    by (intro exI[of _ r] exI[of _ s''] conjI)
qed

text \<open>
  A hit and a miss for \<^verbatim>\<open>http://good.example/a\<close>. In \<open>s_cached\<close> the cache says
  \<open>True\<close> and that is the answer, with one event; from the empty state the answer is
  computed (the domain is allow-listed, so \<open>False\<close>) and stored.
\<close>

theorem C4_decision_cache_witness:
  "\<not> UrlIsBlack env0 (UrlBlacklister v0) ''http://good.example/a'' \<and>
   ParseDomain env0 v0 ''http://good.example/a'' =
     (''http://good.example'', ''good.example'', None) \<and>
   cache_Get (DomainCache s_cached) ''good.example'' (now s_cached) = Some True \<and>
   UrlRequiresProcessing env0 v0 ''http://good.example/a'' s_cached =
     Some ((True, None), emit (CacheGet Decision ''good.example'') s_cached) \<and>
   events (emit (CacheGet Decision ''good.example'') s_cached) =
     [CacheGet Decision ''good.example''] \<and>
   cache_Get (DomainCache s0) ''good.example'' (now s0) = None \<and>
   (\<exists>s''. DomainRequiresProcessing env0 v0 ''good.example''
            (emit (CacheGet Decision ''good.example'') s0) = Some ((False, None), s'') \<and>
      UrlRequiresProcessing env0 v0 ''http://good.example/a'' s0 =
        Some ((False, None), setDomainCache v0 ''good.example'' False s'') \<and>
      cache_Get (DomainCache (setDomainCache v0 ''good.example'' False s'')) ''good.example''
        (now (setDomainCache v0 ''good.example'' False s'')) = Some False \<and>
      events (setDomainCache v0 ''good.example'' False s'') =
        [CacheGet Decision ''good.example'',
         CacheGet Reputation ''good.example'',
         HttpGet ''http://wl/domain?name=good.example'',
         CacheSet Reputation ''good.example'' True,
         CacheSet Decision ''good.example'' False])"
proof -
  note nb = good_example_urls(1) and pd = good_example_urls(3)
  have hit: "cache_Get (DomainCache s_cached) ''good.example'' (now s_cached) = Some True"
    by (simp add: s_cached_def s0_def cache_Get_def)
  from C4_decision_cache[OF nb pd, where s = s_cached and b = True] hit
  have uh: "UrlRequiresProcessing env0 v0 ''http://good.example/a'' s_cached =
     Some ((True, None), emit (CacheGet Decision ''good.example'') s_cached)"
    by blast
  have eh: "events (emit (CacheGet Decision ''good.example'') s_cached) =
     [CacheGet Decision ''good.example'']"
    by (simp add: emit_def s_cached_def s0_def)
  let ?s1 = "emit (CacheGet Decision ''good.example'') s0"
  define sg where "sg = memcache_Set ''good.example'' True
     (external env0 (HttpGet ''http://wl/domain?name=good.example'')
        (emit (CacheGet Reputation ''good.example'') ?s1))"
  have "cache_Get (memcache ?s1) ''good.example'' (now ?s1) = None"
    by (simp add: emit_frame s0_miss)
  from good_example_decision[OF this]
  have dg: "DomainRequiresProcessing env0 v0 ''good.example'' ?s1 = Some ((False, None), sg)"
    unfolding sg_def .
  from C4_decision_cache[OF nb pd, where s = s0] s0_miss(2) v0_maxTries(1)
  obtain r s'' where x: "DomainRequiresProcessing env0 v0 ''good.example'' ?s1 =
        Some ((r, None), s'')"
      "UrlRequiresProcessing env0 v0 ''http://good.example/a'' s0 =
        Some ((r, None), setDomainCache v0 ''good.example'' r s'')"
      "cache_Get (DomainCache (setDomainCache v0 ''good.example'' r s'')) ''good.example''
        (now (setDomainCache v0 ''good.example'' r s'')) = Some r"
    by blast
  from x(1) dg have rs: "r = False" "s'' = sg" by simp_all
  have ev: "events (setDomainCache v0 ''good.example'' False sg) =
        [CacheGet Decision ''good.example'',
         CacheGet Reputation ''good.example'',
         HttpGet ''http://wl/domain?name=good.example'',
         CacheSet Reputation ''good.example'' True,
         CacheSet Decision ''good.example'' False]"
    by (simp add: sg_def setDomainCache_def memcache_Set_def external_def emit_def s0_def)
  have "\<exists>s''. DomainRequiresProcessing env0 v0 ''good.example'' ?s1 = Some ((False, None), s'') \<and>
      UrlRequiresProcessing env0 v0 ''http://good.example/a'' s0 =
        Some ((False, None), setDomainCache v0 ''good.example'' False s'') \<and>
      cache_Get (DomainCache (setDomainCache v0 ''good.example'' False s'')) ''good.example''
        (now (setDomainCache v0 ''good.example'' False s'')) = Some False \<and>
      events (setDomainCache v0 ''good.example'' False s'') =
        [CacheGet Decision ''good.example'',
         CacheGet Reputation ''good.example'',
         HttpGet ''http://wl/domain?name=good.example'',
         CacheSet Reputation ''good.example'' True,
         CacheSet Decision ''good.example'' False]"
    using dg x(2,3)[unfolded rs] ev by (intro exI[of _ sg] conjI)
  with nb pd hit uh eh s0_miss(2) show ?thesis by (intro conjI)
qed

subsection \<open>C5: a local IP literal\<close>

text \<open>
  Claim C5. If the domain parses as an IP address that is loopback, link-local unicast,
  link-local multicast or inside one of the configured networks, then it is an IP
  literal, it is local, and \<^verbatim>\<open>DomainRequiresProcessing\<close> returns \<^verbatim>\<open>(false, nil)\<close>
  and leaves the state as it was: the reputation service is not asked and its cache is
  not read, so the answer does not depend on either.
\<close>

theorem C5_local_ip:
  assumes "ParseIP e domain = Some ip"
    and "IsLoopback e ip \<or> IsLinkLocalUnicast e ip \<or> IsLinkLocalMulticast e ip \<or>
         (\<exists>n \<in> set (LocalIPNets (IpChecker v)). Contains e n ip)"
  shows "DomainIsIP e (IpChecker v) domain \<and> IsLocalIP e (IpChecker v) ip \<and>
         DomainRequiresProcessing e v domain s = Some ((False, None), s)"
proof -
  have l: "IsLocalIP e (IpChecker v) ip" using assms(2) by (simp add: IsLocalIP_iff)
  with assms(1) show ?thesis
    by (simp add: DomainRequiresProcessing_def DomainIsIP_def GetNetIP_def)
qed

text \<open>
  An address in the configured network \<^verbatim>\<open>10.0.0.0/8\<close>, also when the reputation
  service is down, and a loopback address.
\<close>

theorem C5_local_ip_witness:
  "ParseIP env0 ''10.0.0.5'' = Some (IPv4 10 0 0 5) \<and>
   LocalIPNets (IpChecker v0) = [([10, 0, 0, 0], [255, 0, 0, 0])] \<and>
   Contains env0 ([10, 0, 0, 0], [255, 0, 0, 0]) (IPv4 10 0 0 5) \<and>
   DomainIsIP env0 (IpChecker v0) ''10.0.0.5'' \<and>
   IsLocalIP env0 (IpChecker v0) (IPv4 10 0 0 5) \<and>
   DomainRequiresProcessing env0 v0 ''10.0.0.5'' s0 = Some ((False, None), s0) \<and>
   DomainRequiresProcessing env_down v0 ''10.0.0.5'' s0 = Some ((False, None), s0) \<and>
   ParseIP env0 ''127.0.0.1'' = Some (IPv4 127 0 0 1) \<and>
   IsLoopback env0 (IPv4 127 0 0 1) \<and>
   DomainRequiresProcessing env0 v0 ''127.0.0.1'' s0 = Some ((False, None), s0)"
proof -
  note p = env0_addresses(1) and c = env0_addresses(4)
  have n: "LocalIPNets (IpChecker v0) = [([10, 0, 0, 0], [255, 0, 0, 0])]" by (simp add: v0_def)
  have l: "IsLoopback env0 (IPv4 10 0 0 5) \<or> IsLinkLocalUnicast env0 (IPv4 10 0 0 5) \<or>
      IsLinkLocalMulticast env0 (IPv4 10 0 0 5) \<or>
      (\<exists>n \<in> set (LocalIPNets (IpChecker v0)). Contains env0 n (IPv4 10 0 0 5))"
    using c by (simp add: n)
  have p': "ParseIP env_down ''10.0.0.5'' = Some (IPv4 10 0 0 5)"
    using p by (simp add: env_down_def)
  have l': "IsLoopback env_down (IPv4 10 0 0 5) \<or> IsLinkLocalUnicast env_down (IPv4 10 0 0 5) \<or>
      IsLinkLocalMulticast env_down (IPv4 10 0 0 5) \<or>
      (\<exists>n \<in> set (LocalIPNets (IpChecker v0)). Contains env_down n (IPv4 10 0 0 5))"
    using c by (simp add: n env_down_def)
  have l'': "IsLoopback env0 (IPv4 127 0 0 1) \<or> IsLinkLocalUnicast env0 (IPv4 127 0 0 1) \<or>
      IsLinkLocalMulticast env0 (IPv4 127 0 0 1) \<or>
      (\<exists>n \<in> set (LocalIPNets (IpChecker v0)). Contains env0 n (IPv4 127 0 0 1))"
    using env0_addresses(5) by simp
  from C5_local_ip[OF p l, of s0] C5_local_ip[OF p' l', of s0]
    C5_local_ip[OF env0_addresses(2) l'', of s0] p n c env0_addresses(2,5)
  show ?thesis by simp
qed

subsection \<open>C6: an IP literal on the domain path\<close>

text \<open>
  Claim C6. If the host parses as an IP address, \<^verbatim>\<open>DomainIsWhite\<close> returns
  \<^verbatim>\<open>(false, nil)\<close> and leaves the state as it was: no request is sent, and the
  reputation cache is neither read nor written.
\<close>

theorem C6_ip_literal_on_domain_path:
  assumes "ParseIP e host = Some ip"
  shows "DomainIsWhite e w host s = Some ((False, None), s)"
  using assms by (simp add: DomainIsWhite_def)

text \<open>The address \<^verbatim>\<open>8.8.8.8\<close> on the domain path.\<close>

theorem C6_ip_literal_on_domain_path_witness:
  "ParseIP env0 ''8.8.8.8'' = Some (IPv4 8 8 8 8) \<and>
   DomainIsWhite env0 (Whitelister v0) ''8.8.8.8'' s0 = Some ((False, None), s0) \<and>
   events s0 = [] \<and> memcache s0 = Map.empty"
proof -
  note p = env0_addresses(3)
  from C6_ip_literal_on_domain_path[OF p, of "Whitelister v0" s0] p
  show ?thesis by (simp add: s0_def)
qed

subsection \<open>C7: the cache key is the hostname\<close>

text \<open>
  Claim C7. Take two URLs that are not blacklisted and parse to the same hostname
  \<open>domain\<close>, and let \<^verbatim>\<open>UrlRequiresProcessing\<close> return \<open>b\<close> for the first. Its
  error is \<^verbatim>\<open>nil\<close>, and afterwards the decision cache holds \<open>b\<close> under \<open>domain\<close>,
  with an expiry \<open>t\<close> that is thirty minutes after the write when the first call had to
  compute the decision. A later call with the second URL, in any state whose clock has
  not passed \<open>t\<close> and whose cache still has that entry, returns \<^verbatim>\<open>(b, nil)\<close>, and
  its only effect is the read of the decision cache.
\<close>

theorem C7_cached_by_hostname:
  assumes "\<not> UrlIsBlack e (UrlBlacklister v) url1"
    and "\<not> UrlIsBlack e (UrlBlacklister v) url2"
    and "ParseDomain e v url1 = (full1, domain, None)"
    and "ParseDomain e v url2 = (full2, domain, None)"
    and "UrlRequiresProcessing e v url1 s = Some ((b, err), s1)"
  shows
    "err = None \<and>
     (\<exists>t. DomainCache s1 domain = Some (b, t) \<and>
        (cache_Get (DomainCache s) domain (now s) = None \<longrightarrow> t = now s1 + 30 * Minute) \<and>
        (\<forall>s2. DomainCache s2 domain = DomainCache s1 domain \<and> now s2 \<le> t \<longrightarrow>
           UrlRequiresProcessing e v url2 s2 =
             Some ((b, None), emit (CacheGet Decision domain) s2)))"
proof -
  have second: "UrlRequiresProcessing e v url2 s2 =
      Some ((b, None), emit (CacheGet Decision domain) s2)"
    if "DomainCache s1 domain = Some (b, t)"
      and "DomainCache s2 domain = DomainCache s1 domain \<and> now s2 \<le> t"
    for s2 t
  proof -
    from that have "cache_Get (DomainCache s2) domain (now s2) = Some b"
      by (simp add: cache_Get_def)
    with assms(2,4) show ?thesis by (rule UrlRequiresProcessing_hit)
  qed
  show ?thesis
  proof (cases "cache_Get (DomainCache s) domain (now s)")
    case (Some c)
    from UrlRequiresProcessing_hit[OF assms(1,3) Some] assms(5)
    have r: "err = None" "c = b" "s1 = emit (CacheGet Decision domain) s"
      by simp_all
    from Some r obtain t where t: "DomainCache s1 domain = Some (b, t)"
      by (auto simp: cache_Get_def emit_def split: option.splits if_splits)
    show ?thesis
    proof (intro conjI exI[of _ t] allI impI)
      show "err = None" by (rule r(1))
      show "DomainCache s1 domain = Some (b, t)" by (rule t)
    next
      assume "cache_Get (DomainCache s) domain (now s) = None"
      with Some show "t = now s1 + 30 * Minute" by simp
    next
      fix s2 :: state
      assume "DomainCache s2 domain = DomainCache s1 domain \<and> now s2 \<le> t"
      with t show "UrlRequiresProcessing e v url2 s2 =
          Some ((b, None), emit (CacheGet Decision domain) s2)"
        by (rule second)
    qed
  next
    case None
    from UrlRequiresProcessing_miss_Some[OF assms(1,3) None assms(5)]
    obtain s'' where r: "err = None" "s1 = setDomainCache v domain b s''"
      by blast
    have c: "DomainCache s1 domain = Some (b, now s1 + 30 * Minute)"
      using r by (simp add: setDomainCache_def emit_def cache_Set_def)
    show ?thesis
    proof (intro conjI exI[of _ "now s1 + 30 * Minute"] allI impI)
      show "err = None" by (rule r(1))
      show "DomainCache s1 domain = Some (b, now s1 + 30 * Minute)" by (rule c)
      show "now s1 + 30 * Minute = now s1 + 30 * Minute" by (rule refl)
    next
      fix s2 :: state
      assume "DomainCache s2 domain = DomainCache s1 domain \<and> now s2 \<le> now s1 + 30 * Minute"
      with c show "UrlRequiresProcessing e v url2 s2 =
          Some ((b, None), emit (CacheGet Decision domain) s2)"
        by (rule second)
    qed
  qed
qed

text \<open>
  Two URLs of \<^verbatim>\<open>good.example\<close> that differ in their path: the first is decided from
  the empty state, the second is asked ten minutes later and answered from the cache.
\<close>

theorem C7_cached_by_hostname_witness:
  "\<not> UrlIsBlack env0 (UrlBlacklister v0) ''http://good.example/a'' \<and>
   \<not> UrlIsBlack env0 (UrlBlacklister v0) ''http://good.example/b'' \<and>
   ParseDomain env0 v0 ''http://good.example/a'' =
     (''http://good.example'', ''good.example'', None) \<and>
   ParseDomain env0 v0 ''http://good.example/b'' =
     (''http://good.example'', ''good.example'', None) \<and>
   (\<exists>s1. UrlRequiresProcessing env0 v0 ''http://good.example/a'' s0 = Some ((False, None), s1) \<and>
      DomainCache s1 ''good.example'' = Some (False, now s1 + 30 * Minute) \<and>
      UrlRequiresProcessing env0 v0 ''http://good.example/b'' (s1\<lparr>now := now s1 + 10 * Minute\<rparr>) =
        Some ((False, None),
              emit (CacheGet Decision ''good.example'') (s1\<lparr>now := now s1 + 10 * Minute\<rparr>)))"
proof -
  let ?s1 = "emit (CacheGet Decision ''good.example'') s0"
  define sg where "sg = memcache_Set ''good.example'' True
     (external env0 (HttpGet ''http://wl/domain?name=good.example'')
        (emit (CacheGet Reputation ''good.example'') ?s1))"
  define s1 where "s1 = setDomainCache v0 ''good.example'' False sg"
  have "cache_Get (memcache ?s1) ''good.example'' (now ?s1) = None"
    by (simp add: emit_frame s0_miss)
  from good_example_decision[OF this]
  have dg: "DomainRequiresProcessing env0 v0 ''good.example'' ?s1 = Some ((False, None), sg)"
    unfolding sg_def .
  have u1: "UrlRequiresProcessing env0 v0 ''http://good.example/a'' s0 =
      Some ((False, None), s1)"
    unfolding UrlRequiresProcessing_miss[OF good_example_urls(1,3) s0_miss(2)] dg s1_def
    by simp
  from C7_cached_by_hostname[OF good_example_urls(1,2,3,4) u1]
  obtain t where t: "DomainCache s1 ''good.example'' = Some (False, t)"
    and m: "cache_Get (DomainCache s0) ''good.example'' (now s0) = None \<longrightarrow>
              t = now s1 + 30 * Minute"
    and a: "\<forall>s2. DomainCache s2 ''good.example'' = DomainCache s1 ''good.example'' \<and> now s2 \<le> t \<longrightarrow>
              UrlRequiresProcessing env0 v0 ''http://good.example/b'' s2 =
                Some ((False, None), emit (CacheGet Decision ''good.example'') s2)"
    by (elim conjE exE)
  from m s0_miss(2) have t': "t = now s1 + 30 * Minute" by (rule mp)
  let ?s2 = "s1\<lparr>now := now s1 + 10 * Minute\<rparr>"
  have "DomainCache ?s2 ''good.example'' = DomainCache s1 ''good.example'' \<and> now ?s2 \<le> t"
    by (simp add: t' Minute_def)
  with a[THEN spec, of ?s2]
  have u2: "UrlRequiresProcessing env0 v0 ''http://good.example/b'' ?s2 =
      Some ((False, None), emit (CacheGet Decision ''good.example'') ?s2)"
    by (rule mp)
  have "\<exists>s1. UrlRequiresProcessing env0 v0 ''http://good.example/a'' s0 = Some ((False, None), s1) \<and>
      DomainCache s1 ''good.example'' = Some (False, now s1 + 30 * Minute) \<and>
      UrlRequiresProcessing env0 v0 ''http://good.example/b'' (s1\<lparr>now := now s1 + 10 * Minute\<rparr>) =
        Some ((False, None),
              emit (CacheGet Decision ''good.example'') (s1\<lparr>now := now s1 + 10 * Minute\<rparr>))"
    using u1 t[unfolded t'] u2 by (intro exI[of _ s1] conjI)
  with good_example_urls show ?thesis by (intro conjI)
qed

subsection \<open>C8: configurations that must be refused\<close>

lemma empty_item_iff: "empty_item xs valid \<longleftrightarrow> valid \<and> [] \<notin> set xs"
  by (induction xs arbitrary: valid) auto

lemma ValidatorConfig_IsValid_iff:
  "ValidatorConfig_IsValid e (Some cfg) \<longleftrightarrow>
     UrlBlackListRegexps cfg \<noteq> [] \<and> [] \<notin> set (UrlBlackListRegexps cfg) \<and>
     LocalIPNetsCfg cfg \<noteq> [] \<and> [] \<notin> set (LocalIPNetsCfg cfg) \<and>
     IsValidUrl e (CheckDomainApiUrl (WhitelisterApi cfg)) \<and>
     IsValidUrl e (CheckIpApiUrl (WhitelisterApi cfg)) \<and>
     0 < MaxTries (WhitelisterApi cfg) \<and>
     Millisecond \<le> SleepTime (WhitelisterApi cfg)"
  by (auto simp: ValidatorConfig_IsValid_def Let_def empty_item_iff)

lemma HttpConfig_IsValid_iff: "HttpConfig_IsValid c \<longleftrightarrow> Listen c \<noteq> []"
  by (simp add: HttpConfig_IsValid_def HttpConfig_IsValid_run_def Let_def)

text \<open>
  Claim C8 does not hold of the code. \<^verbatim>\<open>NewValidator\<close> refuses every configuration
  with an empty list of patterns or of networks, an empty item in either list, an
  endpoint that is not a valid URL, or a retry count that is not positive, and
  \<^verbatim>\<open>NewServer\<close> refuses an empty listen address. But for an empty map of tokens
  \<^verbatim>\<open>HttpConfig.IsValid\<close> only records the message; it does not set
  \<^verbatim>\<open>valid = false\<close>, as it does for the listen address. So whenever the listen address
  is not empty, \<^verbatim>\<open>IsValid\<close> is true and \<^verbatim>\<open>NewServer\<close> builds the server, tokens
  or no tokens.
\<close>

theorem C8_constructors:
  "(UrlBlackListRegexps cfg = [] \<or> [] \<in> set (UrlBlackListRegexps cfg) \<or>
    LocalIPNetsCfg cfg = [] \<or> [] \<in> set (LocalIPNetsCfg cfg) \<or>
    \<not> IsValidUrl e (CheckDomainApiUrl (WhitelisterApi cfg)) \<or>
    \<not> IsValidUrl e (CheckIpApiUrl (WhitelisterApi cfg)) \<or>
    MaxTries (WhitelisterApi cfg) \<le> 0 \<longrightarrow>
      NewValidator e cfg = Inl ErrValidatorCfg) \<and>
   (Listen c = [] \<longrightarrow> NewServer c = Inl ErrHttpCfg) \<and>
   (Listen c \<noteq> [] \<and> AuthTokens c = [] \<longrightarrow>
      HttpConfig_IsValid_run c = (True, [EmptyAuthTokens]) \<and>
      NewServer c = Inr \<lparr>Addr = '':'' @ Listen c, ServerAuthTokens = []\<rparr>)"
proof (intro conjI impI)
  assume "UrlBlackListRegexps cfg = [] \<or> [] \<in> set (UrlBlackListRegexps cfg) \<or>
    LocalIPNetsCfg cfg = [] \<or> [] \<in> set (LocalIPNetsCfg cfg) \<or>
    \<not> IsValidUrl e (CheckDomainApiUrl (WhitelisterApi cfg)) \<or>
    \<not> IsValidUrl e (CheckIpApiUrl (WhitelisterApi cfg)) \<or>
    MaxTries (WhitelisterApi cfg) \<le> 0"
  then have "\<not> ValidatorConfig_IsValid e (Some cfg)"
    unfolding ValidatorConfig_IsValid_iff by auto
  then show "NewValidator e cfg = Inl ErrValidatorCfg" by (simp add: NewValidator_def)
next
  assume "Listen c = []"
  then show "NewServer c = Inl ErrHttpCfg"
    by (simp add: NewServer_def HttpConfig_IsValid_iff)
next
  assume a: "Listen c \<noteq> [] \<and> AuthTokens c = []"
  then show "HttpConfig_IsValid_run c = (True, [EmptyAuthTokens])"
    by (simp add: HttpConfig_IsValid_run_def Let_def)
  from a show "NewServer c = Inr \<lparr>Addr = '':'' @ Listen c, ServerAuthTokens = []\<rparr>"
    by (simp add: NewServer_def HttpConfig_IsValid_iff)
qed

text \<open>
  The three parts at work: \<open>cfg0\<close> is accepted and gives \<open>v0\<close>, but with its
  list of patterns emptied it is refused; an HTTP configuration with no listen address
  is refused; and \<open>cfg_noauth\<close>, which listens on \<^verbatim>\<open>8080\<close> and has no token, is
  accepted.
\<close>

theorem C8_constructors_witness:
  "NewValidator env0 cfg0 = Inr v0 \<and>
   UrlBlackListRegexps (cfg0\<lparr>UrlBlackListRegexps := []\<rparr>) = [] \<and>
   NewValidator env0 (cfg0\<lparr>UrlBlackListRegexps := []\<rparr>) = Inl ErrValidatorCfg \<and>
   NewServer \<lparr>Listen = [], AuthTokens = [(''k'', ''t'')]\<rparr> = Inl ErrHttpCfg \<and>
   Listen cfg_noauth = ''8080'' \<and> AuthTokens cfg_noauth = [] \<and>
   HttpConfig_IsValid_run cfg_noauth = (True, [EmptyAuthTokens]) \<and>
   NewServer cfg_noauth = Inr \<lparr>Addr = '':8080'', ServerAuthTokens = []\<rparr>"
proof -
  have l: "Listen cfg_noauth = ''8080''" "AuthTokens cfg_noauth = []"
    by (simp_all add: cfg_noauth_def)
  have e: "UrlBlackListRegexps (cfg0\<lparr>UrlBlackListRegexps := []\<rparr>) = []" by simp
  from C8_constructors[of "cfg0\<lparr>UrlBlackListRegexps := []\<rparr>" env0 cfg_noauth] e l
  have a: "NewValidator env0 (cfg0\<lparr>UrlBlackListRegexps := []\<rparr>) = Inl ErrValidatorCfg"
    and b: "HttpConfig_IsValid_run cfg_noauth = (True, [EmptyAuthTokens])"
    and c: "NewServer cfg_noauth = Inr \<lparr>Addr = '':8080'', ServerAuthTokens = []\<rparr>"
    by simp_all
  from C8_constructors[of cfg0 env0 "\<lparr>Listen = [], AuthTokens = [(''k'', ''t'')]\<rparr>"]
  have d: "NewServer \<lparr>Listen = [], AuthTokens = [(''k'', ''t'')]\<rparr> = Inl ErrHttpCfg"
    by simp
  have v: "NewValidator env0 cfg0 = Inr v0"
    by (simp add: NewValidator_def ValidatorConfig_IsValid_def IsValidUrl_def NewBlacklister_def
        NewIpChecker_def NewWhitelister_def cfg0_def v0_def env0_def Millisecond_def)
  from v e a d l b c show ?thesis by (intro conjI)
qed

subsection \<open>C9: where an error can come from\<close>

text \<open>
  Claim C9. Whatever \<^verbatim>\<open>DomainIsWhite\<close>, \<^verbatim>\<open>IpIsWhite\<close> and
  \<^verbatim>\<open>DomainRequiresProcessing\<close> return, the error is \<^verbatim>\<open>nil\<close>; so the two returns of
  \<^verbatim>\<open>DomainRequiresProcessing\<close> under \<^verbatim>\<open>err != nil\<close>, and the one of
  \<^verbatim>\<open>UrlRequiresProcessing\<close> after it, are never taken. \<^verbatim>\<open>UrlRequiresProcessing\<close>
  returns an error exactly when the URL is not blacklisted and \<^verbatim>\<open>ParseDomain\<close> fails.
  All four functions return whenever \<open>maxTries\<close> is below the largest \<^verbatim>\<open>int\<close>.
\<close>

theorem C9_errors:
  "(DomainIsWhite e w d s = Some ((b, err), s') \<longrightarrow> err = None) \<and>
   (IpIsWhite e w d s = Some ((b, err), s') \<longrightarrow> err = None) \<and>
   (DomainRequiresProcessing e v d s = Some ((b, err), s') \<longrightarrow> err = None) \<and>
   (UrlRequiresProcessing e v url s = Some ((b, err), s') \<longrightarrow>
      (err \<noteq> None \<longleftrightarrow>
         \<not> UrlIsBlack e (UrlBlacklister v) url \<and> snd (snd (ParseDomain e v url)) \<noteq> None)) \<and>
   (maxTries w < MaxInt64 \<longrightarrow>
      DomainIsWhite e w d s \<noteq> None \<and> IpIsWhite e w d s \<noteq> None) \<and>
   (maxTries (Whitelister v) < MaxInt64 \<longrightarrow>
      DomainRequiresProcessing e v d s \<noteq> None \<and> UrlRequiresProcessing e v url s \<noteq> None)"
proof (intro conjI impI)
  assume "DomainIsWhite e w d s = Some ((b, err), s')"
  from DomainIsWhite_result[OF this] show "err = None" by simp
next
  assume "IpIsWhite e w d s = Some ((b, err), s')"
  from IpIsWhite_result[OF this] show "err = None" by simp
next
  assume "DomainRequiresProcessing e v d s = Some ((b, err), s')"
  from DomainRequiresProcessing_result[OF this] show "err = None" by simp
next
  assume u: "UrlRequiresProcessing e v url s = Some ((b, err), s')"
  obtain full domain perr where p: "ParseDomain e v url = (full, domain, perr)"
    by (cases "ParseDomain e v url") auto
  show "err \<noteq> None \<longleftrightarrow>
      \<not> UrlIsBlack e (UrlBlacklister v) url \<and> snd (snd (ParseDomain e v url)) \<noteq> None"
  proof (cases "UrlIsBlack e (UrlBlacklister v) url")
    case True
    with u show ?thesis by (simp add: UrlRequiresProcessing_def)
  next
    case False
    show ?thesis
    proof (cases perr)
      case (Some x)
      with False p u show ?thesis by (simp add: UrlRequiresProcessing_def)
    next
      case None
      with p have p': "ParseDomain e v url = (full, domain, None)" by simp
      show ?thesis
      proof (cases "cache_Get (DomainCache s) domain (now s)")
        case (Some c)
        from UrlRequiresProcessing_hit[OF False p' Some] u p' show ?thesis by simp
      next
        case n: None
        from UrlRequiresProcessing_miss_Some[OF False p' n u] p' show ?thesis
          by simp
      qed
    qed
  qed
next
  assume "maxTries w < MaxInt64"
  then show "DomainIsWhite e w d s \<noteq> None" by (rule DomainIsWhite_returns)
next
  assume "maxTries w < MaxInt64"
  then show "IpIsWhite e w d s \<noteq> None" by (rule IpIsWhite_returns)
next
  assume "maxTries (Whitelister v) < MaxInt64"
  then show "DomainRequiresProcessing e v d s \<noteq> None"
    by (rule DomainRequiresProcessing_returns)
next
  assume "maxTries (Whitelister v) < MaxInt64"
  then show "UrlRequiresProcessing e v url s \<noteq> None"
    by (rule UrlRequiresProcessing_returns)
qed

text \<open>
  A URL with no host: \<^verbatim>\<open>ParseDomain\<close> fails and that is the error returned. And the
  lookups and decisions for \<^verbatim>\<open>good.example\<close> from the empty state return, with no
  error.
\<close>

theorem C9_errors_witness:
  "UrlRequiresProcessing env0 v0 ''mailto:a'' s0 = Some ((False, Some ErrEmptyDomain), s0) \<and>
   \<not> UrlIsBlack env0 (UrlBlacklister v0) ''mailto:a'' \<and>
   snd (snd (ParseDomain env0 v0 ''mailto:a'')) \<noteq> None \<and>
   maxTries (Whitelister v0) < MaxInt64 \<and>
   (\<exists>b s'. DomainIsWhite env0 (Whitelister v0) ''good.example'' s0 = Some ((b, None), s')) \<and>
   (\<exists>b s'. IpIsWhite env0 (Whitelister v0) ''good.example'' s0 = Some ((b, None), s')) \<and>
   (\<exists>b s'. DomainRequiresProcessing env0 v0 ''good.example'' s0 = Some ((b, None), s')) \<and>
   (\<exists>b s'. UrlRequiresProcessing env0 v0 ''http://good.example/a'' s0 = Some ((b, None), s'))"
proof -
  let ?w = "Whitelister v0"
  have u: "UrlRequiresProcessing env0 v0 ''mailto:a'' s0 =
      Some ((False, Some ErrEmptyDomain), s0)"
    by (simp add: UrlRequiresProcessing_def UrlIsBlack_def ParseDomain_def v0_def env0_def)
  from C9_errors[of env0 ?w "''good.example''" s0 False "Some ErrEmptyDomain" s0 v0 "''mailto:a''"] u
  have p: "\<not> UrlIsBlack env0 (UrlBlacklister v0) ''mailto:a'' \<and>
      snd (snd (ParseDomain env0 v0 ''mailto:a'')) \<noteq> None"
    by simp
  note m = v0_maxTries(1)
  have ex: "\<exists>b s'. x = Some ((b, None), s')"
    if "x \<noteq> None" and "\<And>b err s'. x = Some ((b, err), s') \<Longrightarrow> err = None"
    for x :: "((bool \<times> error option) \<times> state) option"
  proof -
    from that(1) obtain y where y: "x = Some y" by blast
    obtain b er s' where "y = ((b, er), s')" by (cases y) auto
    with y that(2) show ?thesis by blast
  qed
  have a: "\<exists>b s'. DomainIsWhite env0 ?w ''good.example'' s0 = Some ((b, None), s')"
  proof (rule ex)
    from C9_errors[where e = env0 and w = ?w and d = "''good.example''" and s = s0 and v = v0] m
    show "DomainIsWhite env0 ?w ''good.example'' s0 \<noteq> None" by blast
    fix b err s' assume "DomainIsWhite env0 ?w ''good.example'' s0 = Some ((b, err), s')"
    with C9_errors[where e = env0 and w = ?w and d = "''good.example''" and s = s0
        and b = b and err = err and s' = s']
    show "err = None" by blast
  qed
  have b: "\<exists>b s'. IpIsWhite env0 ?w ''good.example'' s0 = Some ((b, None), s')"
  proof (rule ex)
    from C9_errors[where e = env0 and w = ?w and d = "''good.example''" and s = s0 and v = v0] m
    show "IpIsWhite env0 ?w ''good.example'' s0 \<noteq> None" by blast
    fix b err s' assume "IpIsWhite env0 ?w ''good.example'' s0 = Some ((b, err), s')"
    with C9_errors[where e = env0 and w = ?w and d = "''good.example''" and s = s0
        and b = b and err = err and s' = s']
    show "err = None" by blast
  qed
  have c: "\<exists>b s'. DomainRequiresProcessing env0 v0 ''good.example'' s0 = Some ((b, None), s')"
  proof (rule ex)
    from C9_errors[where e = env0 and w = ?w and d = "''good.example''" and s = s0 and v = v0] m
    show "DomainRequiresProcessing env0 v0 ''good.example'' s0 \<noteq> None" by blast
    fix b err s'
    assume "DomainRequiresProcessing env0 v0 ''good.example'' s0 = Some ((b, err), s')"
    with C9_errors[where e = env0 and v = v0 and d = "''good.example''" and s = s0
        and b = b and err = err and s' = s']
    show "err = None" by blast
  qed
  have d: "\<exists>b s'. UrlRequiresProcessing env0 v0 ''http://good.example/a'' s0 =
      Some ((b, None), s')"
  proof (rule ex)
    from C9_errors[where e = env0 and v = v0 and url = "''http://good.example/a''" and s = s0] m
    show "UrlRequiresProcessing env0 v0 ''http://good.example/a'' s0 \<noteq> None" by blast
    fix b err s'
    assume x: "UrlRequiresProcessing env0 v0 ''http://good.example/a'' s0 = Some ((b, err), s')"
    have "snd (snd (ParseDomain env0 v0 ''http://good.example/a'')) = None"
      by (simp add: good_example_urls)
    with x C9_errors[where e = env0 and v = v0 and url = "''http://good.example/a''" and s = s0
        and b = b and err = err and s' = s']
    show "err = None" by blast
  qed
  from u p m a b c d show ?thesis by (intro conjI) blast+
qed

subsection \<open>C10: the branch for an address that does not parse\<close>

text \<open>
  Claim C10. \<^verbatim>\<open>DomainIsIP\<close> is \<^verbatim>\<open>GetNetIP(domain) != nil\<close>. So in the arm of
  \<^verbatim>\<open>DomainRequiresProcessing\<close> for an IP literal, \<^verbatim>\<open>GetNetIP\<close> returns an
  address, the branch \<^verbatim>\<open>netIP == nil\<close> is never taken, and the result is the one of
  the rest of the arm: \<^verbatim>\<open>(false, nil)\<close> for a local address, otherwise the negation
  of what \<^verbatim>\<open>IpIsWhite\<close> returns.
\<close>

theorem C10_nil_branch_unreachable:
  assumes "DomainIsIP e (IpChecker v) domain"
  shows "\<exists>netIP. GetNetIP e (IpChecker v) domain = Some netIP \<and>
     DomainRequiresProcessing e v domain s =
       (if IsLocalIP e (IpChecker v) netIP then Some ((False, None), s)
        else map_option (\<lambda>((isWhite, err), s'). ((\<not> isWhite, None), s'))
               (IpIsWhite e (Whitelister v) domain s))"
proof -
  from assms obtain netIP where n: "GetNetIP e (IpChecker v) domain = Some netIP"
    by (auto simp: DomainIsIP_def)
  have "DomainRequiresProcessing e v domain s =
       (if IsLocalIP e (IpChecker v) netIP then Some ((False, None), s)
        else map_option (\<lambda>((isWhite, err), s'). ((\<not> isWhite, None), s'))
               (IpIsWhite e (Whitelister v) domain s))"
  proof (cases "IpIsWhite e (Whitelister v) domain s")
    case None
    with assms n show ?thesis by (simp add: DomainRequiresProcessing_def)
  next
    case (Some y)
    obtain b er s' where y: "y = ((b, er), s')" by (cases y) auto
    from IpIsWhite_result[OF Some] y have "er = None" by simp
    with assms n Some y show ?thesis by (simp add: DomainRequiresProcessing_def)
  qed
  with n show ?thesis by (intro exI[of _ netIP] conjI)
qed

text \<open>
  The address \<^verbatim>\<open>8.8.8.8\<close>, which is not local and not allow-listed: it needs
  processing.
\<close>

theorem C10_nil_branch_unreachable_witness:
  "DomainIsIP env0 (IpChecker v0) ''8.8.8.8'' \<and>
   GetNetIP env0 (IpChecker v0) ''8.8.8.8'' = Some (IPv4 8 8 8 8) \<and>
   \<not> IsLocalIP env0 (IpChecker v0) (IPv4 8 8 8 8) \<and>
   (\<exists>s'. IpIsWhite env0 (Whitelister v0) ''8.8.8.8'' s0 = Some ((False, None), s') \<and>
      DomainRequiresProcessing env0 v0 ''8.8.8.8'' s0 = Some ((True, None), s') \<and>
      events s' =
        [CacheGet Reputation ''8.8.8.8'',
         HttpGet ''http://wl/ip?addr=8.8.8.8'',
         CacheSet Reputation ''8.8.8.8'' False])"
proof -
  define si where "si = memcache_Set ''8.8.8.8'' False
     (external env0 (HttpGet ''http://wl/ip?addr=8.8.8.8'')
        (emit (CacheGet Reputation ''8.8.8.8'') s0))"
  have i: "DomainIsIP env0 (IpChecker v0) ''8.8.8.8''"
    by (simp add: DomainIsIP_def GetNetIP_def env0_addresses)
  have g: "GetNetIP env0 (IpChecker v0) ''8.8.8.8'' = Some (IPv4 8 8 8 8)"
    by (simp add: GetNetIP_def env0_addresses)
  note l = env0_addresses(6)
  have w: "IpIsWhite env0 (Whitelister v0) ''8.8.8.8'' s0 = Some ((False, None), si)"
    unfolding si_def by (rule public_ip_lookup[OF s0_miss(1)])
  from C10_nil_branch_unreachable[OF i, of s0] g l w
  have r: "DomainRequiresProcessing env0 v0 ''8.8.8.8'' s0 = Some ((True, None), si)"
    by auto
  have ev: "events si =
        [CacheGet Reputation ''8.8.8.8'',
         HttpGet ''http://wl/ip?addr=8.8.8.8'',
         CacheSet Reputation ''8.8.8.8'' False]"
    by (simp add: si_def memcache_Set_def external_def emit_def s0_def)
  have "\<exists>s'. IpIsWhite env0 (Whitelister v0) ''8.8.8.8'' s0 = Some ((False, None), s') \<and>
      DomainRequiresProcessing env0 v0 ''8.8.8.8'' s0 = Some ((True, None), s') \<and>
      events s' =
        [CacheGet Reputation ''8.8.8.8'',
         HttpGet ''http://wl/ip?addr=8.8.8.8'',
         CacheSet Reputation ''8.8.8.8'' False]"
    using w r ev by (intro exI[of _ si] conjI)
  with i g l show ?thesis by (intro conjI)
qed

end
